theory Spec2Isabelle
  imports Main "HOL-Library.AList"
begin

section \<open>Strings\<close>

text \<open>
  Go strings are byte sequences; they are modelled as \<^typ>\<open>string\<close> (a list of
  8-bit characters). Protobuf identifiers are ASCII, so \<open>strings.ToLower\<close> is modelled by
  its action on ASCII letters; every other byte is left as it is.
\<close>

definition toLowerByte :: "char \<Rightarrow> char" where
  "toLowerByte c =
     (if (65::nat) \<le> of_char c \<and> of_char c \<le> (90::nat)
      then char_of (of_char c + (32::nat)) else c)"

definition ToLower :: "string \<Rightarrow> string" where
  "ToLower s = map toLowerByte s"

text \<open>\<open>strings.ReplaceAll(s, old, new)\<close> for one-byte \<open>old\<close> and \<open>new\<close>.\<close>

definition ReplaceAll :: "string \<Rightarrow> char \<Rightarrow> char \<Rightarrow> string" where
  "ReplaceAll s old new = map (\<lambda>c. if c = old then new else c) s"

text \<open>\<open>strings.Contains(s, sub)\<close> for a one-byte \<open>sub\<close>.\<close>

definition Contains :: "string \<Rightarrow> char \<Rightarrow> bool" where
  "Contains s c = (c \<in> set s)"

text \<open>\<open>strings.HasPrefix(s, prefix)\<close>.\<close>

definition HasPrefix :: "string \<Rightarrow> string \<Rightarrow> bool" where
  "HasPrefix s p = (take (length p) s = p)"

text \<open>\<open>strings.TrimPrefix(s, prefix)\<close>.\<close>

definition TrimPrefix :: "string \<Rightarrow> string \<Rightarrow> string" where
  "TrimPrefix s p = (if HasPrefix s p then drop (length p) s else s)"

text \<open>
  \<open>strings.LastIndex(s, sub)\<close> for a one-byte \<open>sub\<close>: the index of the last
  occurrence, or \<open>-1\<close> when there is none.
\<close>

fun LastIndex :: "string \<Rightarrow> char \<Rightarrow> int" where
  "LastIndex [] c = -1"
| "LastIndex (x # xs) c =
     (let r = LastIndex xs c
      in if 0 \<le> r then r + 1 else if x = c then 0 else -1)"

section \<open>Method records\<close>

text \<open>
  \<open>types.MethodInfo\<close>, with the fields that the functions below read or write. A
  message descriptor is held by the fully-qualified name of the message it describes.
\<close>

record MethodInfo =
  Name :: string
  FullName :: string
  ServiceName :: string
  ServiceDescription :: string
  Description :: string
  InputType :: string
  OutputType :: string
  InputDescriptor :: string
  OutputDescriptor :: string
  IsClientStreaming :: bool
  IsServerStreaming :: bool
  ToolName :: string

text \<open>
  Modelled from the spec: \<open>MethodInfo.GenerateToolName\<close> (package \<open>types\<close>) is
  called by the loader, the reflection client and the tool builder, and its body is not
  among the sources. The spec derives the tool identifier from the fully-qualified method
  name by lowercasing the whole string and replacing every \<open>.\<close> with \<open>_\<close>.
\<close>

definition GenerateToolName :: "MethodInfo \<Rightarrow> string" where
  "GenerateToolName m = ReplaceAll (ToLower (FullName m)) (CHR ''.'') (CHR ''_'')"


section \<open>Errors\<close>

text \<open>
  Go errors are values built by \<open>fmt.Errorf\<close>; each constructor stands for one
  \<open>fmt.Errorf\<close> site of the sources (a wrapped cause is the constructor's argument).
  \<open>External\<close> is an error raised by the file system, the network or the protobuf
  library; \<open>PanicSliceBounds\<close> is the runtime panic of a slice expression whose bound
  is negative.
\<close>

datatype error =
    External string
  | NotConnected
  | ToolNotFound string
  | StreamingNotSupported
  | FailedToInvokeMethod error
  | FailedToParseInputJSON error
  | GrpcCallFailed error
  | FailedToMarshalOutput error
  | FailedToListServices error
  | FailedToDiscoverViaReflection error
  | FailedToLoadDescriptorSet error
  | FailedToBuildFileRegistry error
  | FailedToExtractMethodInfo error
  | FailedToResolveInput string error
  | FailedToResolveOutput string error
  | NoConnectionAvailable
  | UnhealthyState
  | StateDidNotChange
  | FailedToBecomeReady
  | ToolNameEmpty
  | ToolDescriptionEmpty
  | ToolInputSchemaNil
  | ToolNameNoUnderscore
  | ToolValidationFailed error
  | FailedInputSchema error
  | FailedOutputSchema error
  | UnsupportedFieldKind
  | FailedMessageSchema string error
  | PanicSliceBounds

section \<open>Service and method descriptors\<close>

record SourceLocation =
  LeadingComments :: string
  TrailingComments :: string

record MethodDescriptorProto =
  md_name :: string
  md_input_type :: string
  md_output_type :: string
  md_client_streaming :: bool
  md_server_streaming :: bool
  md_loc :: SourceLocation

record ServiceDescriptorProto =
  sd_name :: string
  sd_method :: "MethodDescriptorProto list"
  sd_loc :: SourceLocation

record FileDescriptorProto =
  fd_name :: string
  fd_package :: string
  fd_service :: "ServiceDescriptorProto list"

text \<open>
  The fully-qualified name of a service of a file, as the file descriptor proto spells it
  out in \<open>extractMethodsFromFileDescriptor\<close> and as \<open>protoreflect\<close> reports it
  through \<open>FullName()\<close>: the package, a dot, the simple name.
\<close>

definition fullServiceName :: "FileDescriptorProto \<Rightarrow> ServiceDescriptorProto \<Rightarrow> string" where
  "fullServiceName fd service =
     (if fd_package fd \<noteq> [] then fd_package fd @ ''.'' @ sd_name service
      else sd_name service)"

text \<open>\<open>extractComments\<close> (the loader's and the tool builder's are the same function).\<close>

definition extractComments :: "SourceLocation \<Rightarrow> string" where
  "extractComments loc =
     (let comments = (if LeadingComments loc \<noteq> [] then LeadingComments loc else [])
      in if TrailingComments loc \<noteq> []
         then (if comments \<noteq> [] then comments @ [CHR 0x0A] @ TrailingComments loc
               else TrailingComments loc)
         else comments)"

section \<open>Descriptor loader: the offline path\<close>

text \<open>\<open>strings.Split(s, sep)\<close> for a one-byte separator.\<close>

fun Split :: "string \<Rightarrow> char \<Rightarrow> string list" where
  "Split [] c = [[]]"
| "Split (x # xs) c =
     (if x = c then [] # Split xs c
      else (case Split xs c of [] \<Rightarrow> [[x]] | p # ps \<Rightarrow> (x # p) # ps))"

definition extractServiceNameForCompatibility :: "string \<Rightarrow> string" where
  "extractServiceNameForCompatibility fullName =
     (let parts = Split fullName (CHR ''.'')
      in if length parts < 2 then fullName
         else (parts ! (length parts - 2)) @ ''.'' @ (parts ! (length parts - 1)))"

text \<open>
  The body of the inner loop of \<open>ExtractMethodInfo\<close>: the record of one method of one
  service. \<open>methodDesc.FullName()\<close> is the service's full name, a dot and the method's
  name; \<open>Input().FullName()\<close> is the declared type name without its leading dot.
\<close>

definition loaderMethodInfo ::
  "string \<Rightarrow> string \<Rightarrow> string \<Rightarrow> MethodDescriptorProto \<Rightarrow> MethodInfo" where
  "loaderMethodInfo fullName serviceName serviceDescription methodDesc =
     (let methodInfo = \<lparr>
        Name = md_name methodDesc,
        FullName = fullName @ ''.'' @ md_name methodDesc,
        ServiceName = serviceName,
        ServiceDescription = serviceDescription,
        Description = extractComments (md_loc methodDesc),
        InputType = TrimPrefix (md_input_type methodDesc) ''.'',
        OutputType = TrimPrefix (md_output_type methodDesc) ''.'',
        InputDescriptor = TrimPrefix (md_input_type methodDesc) ''.'',
        OutputDescriptor = TrimPrefix (md_output_type methodDesc) ''.'',
        IsClientStreaming = md_client_streaming methodDesc,
        IsServerStreaming = md_server_streaming methodDesc,
        ToolName = [] \<rparr>
      in methodInfo\<lparr>ToolName := GenerateToolName methodInfo\<rparr>)"

definition loaderServiceMethods :: "FileDescriptorProto \<Rightarrow> ServiceDescriptorProto \<Rightarrow> MethodInfo list" where
  "loaderServiceMethods fd serviceDesc =
     (let fullName = fullServiceName fd serviceDesc;
          serviceName = extractServiceNameForCompatibility fullName;
          serviceDescription = extractComments (sd_loc serviceDesc)
      in map (loaderMethodInfo fullName serviceName serviceDescription) (sd_method serviceDesc))"

text \<open>
  \<open>ExtractMethodInfo\<close>: every method of every service of every registered file, with
  no filter. The registry is the list of its files in the order \<open>RangeFiles\<close> visits
  them. The Go slice starts as \<open>nil\<close> and is only appended to, so it is \<open>nil\<close>
  exactly when the list is empty.
\<close>

definition ExtractMethodInfo :: "FileDescriptorProto list \<Rightarrow> MethodInfo list" where
  "ExtractMethodInfo files =
     concat (map (\<lambda>fd. concat (map (loaderServiceMethods fd) (fd_service fd))) files)"

section \<open>Reflection client\<close>

text \<open>
  The backend's reflection service, as the client sees it: the answer to
  \<open>ListServices\<close>, the answer to \<open>FileContainingSymbol\<close> for each symbol (with every
  transport and decoding failure as an error), and the protobuf library's resolution of a
  type name inside a file to a message descriptor.
\<close>

record ReflectionServer =
  rs_ListServices :: "error + string list"
  rs_FileContainingSymbol :: "string \<Rightarrow> error + FileDescriptorProto"
  rs_FindMessage :: "string \<Rightarrow> FileDescriptorProto \<Rightarrow> error + string"

text \<open>The requests a client puts on the wire.\<close>

datatype ReflectionRequest = ReqListServices | ReqFileContainingSymbol string

record reflectionClient =
  fdCache :: "string \<rightharpoonup> FileDescriptorProto"

definition NewReflectionClient :: reflectionClient where
  "NewReflectionClient = \<lparr> fdCache = Map.empty \<rparr>"

definition listServices ::
  "ReflectionServer \<Rightarrow> (error + string list) \<times> ReflectionRequest list" where
  "listServices srv = (rs_ListServices srv, [ReqListServices])"

definition internalPrefixes :: "string list" where
  "internalPrefixes = [''grpc.reflection.'', ''grpc.health.'', ''grpc.channelz.'', ''grpc.testing.'']"

definition isInternal :: "string \<Rightarrow> bool" where
  "isInternal service = list_ex (HasPrefix service) internalPrefixes"

definition filterInternalServices :: "string list \<Rightarrow> string list" where
  "filterInternalServices services = filter (\<lambda>service. \<not> isInternal service) services"

text \<open>
  \<open>getFileDescriptorBySymbol\<close>: a cache hit answers without a request; a miss sends one
  request and, on success, caches the file under the symbol and under the file's own name.
\<close>

definition getFileDescriptorBySymbol ::
  "ReflectionServer \<Rightarrow> reflectionClient \<Rightarrow> string \<Rightarrow>
   (error + FileDescriptorProto) \<times> reflectionClient \<times> ReflectionRequest list" where
  "getFileDescriptorBySymbol srv r symbol =
     (case fdCache r symbol of
        Some fd \<Rightarrow> (Inr fd, r, [])
      | None \<Rightarrow>
          (case rs_FileContainingSymbol srv symbol of
             Inl e \<Rightarrow> (Inl e, r, [ReqFileContainingSymbol symbol])
           | Inr fileDescriptor \<Rightarrow>
               (let c1 = (fdCache r)(symbol \<mapsto> fileDescriptor);
                    c2 = (if fd_name fileDescriptor \<noteq> []
                          then c1(fd_name fileDescriptor \<mapsto> fileDescriptor) else c1)
                in (Inr fileDescriptor, r\<lparr>fdCache := c2\<rparr>, [ReqFileContainingSymbol symbol]))))"

definition resolveMessageDescriptor ::
  "ReflectionServer \<Rightarrow> string \<Rightarrow> FileDescriptorProto \<Rightarrow> error + string" where
  "resolveMessageDescriptor srv typeName fileDescriptor =
     rs_FindMessage srv (TrimPrefix typeName ''.'') fileDescriptor"

definition createMethodInfoWithServiceContext ::
  "ReflectionServer \<Rightarrow> string \<Rightarrow> MethodDescriptorProto \<Rightarrow> FileDescriptorProto \<Rightarrow>
   error + MethodInfo" where
  "createMethodInfoWithServiceContext srv serviceName method fileDescriptor =
     (let methodInfo0 = \<lparr>
        Name = md_name method,
        FullName = serviceName @ ''.'' @ md_name method,
        ServiceName = serviceName,
        ServiceDescription = [],
        Description = [],
        InputType = md_input_type method,
        OutputType = md_output_type method,
        InputDescriptor = [],
        OutputDescriptor = [],
        IsClientStreaming = md_client_streaming method,
        IsServerStreaming = md_server_streaming method,
        ToolName = [] \<rparr>;
          methodInfo = methodInfo0\<lparr>ToolName := GenerateToolName methodInfo0\<rparr>
      in case resolveMessageDescriptor srv (md_input_type method) fileDescriptor of
           Inl e \<Rightarrow> Inl (FailedToResolveInput (md_input_type method) e)
         | Inr inputDescriptor \<Rightarrow>
             (case resolveMessageDescriptor srv (md_output_type method) fileDescriptor of
                Inl e \<Rightarrow> Inl (FailedToResolveOutput (md_output_type method) e)
              | Inr outputDescriptor \<Rightarrow>
                  Inr (methodInfo\<lparr>InputDescriptor := inputDescriptor,
                                  OutputDescriptor := outputDescriptor\<rparr>)))"

text \<open>The methods of one service: a method whose record cannot be built is skipped.\<close>

fun serviceMethods ::
  "ReflectionServer \<Rightarrow> string \<Rightarrow> FileDescriptorProto \<Rightarrow> MethodDescriptorProto list \<Rightarrow>
   MethodInfo list" where
  "serviceMethods srv serviceName fd [] = []"
| "serviceMethods srv serviceName fd (method # rest) =
     (case createMethodInfoWithServiceContext srv serviceName method fd of
        Inl e \<Rightarrow> serviceMethods srv serviceName fd rest
      | Inr methodInfo \<Rightarrow> methodInfo # serviceMethods srv serviceName fd rest)"

definition extractMethodsFromFileDescriptor ::
  "ReflectionServer \<Rightarrow> FileDescriptorProto \<Rightarrow> string list \<Rightarrow> MethodInfo list" where
  "extractMethodsFromFileDescriptor srv fileDescriptor targetServices =
     concat (map (\<lambda>service.
        if fullServiceName fileDescriptor service \<notin> set targetServices then []
        else serviceMethods srv (fullServiceName fileDescriptor service) fileDescriptor
               (sd_method service))
       (fd_service fileDescriptor))"

text \<open>
  The first loop of \<open>DiscoverMethods\<close>: one file per surviving service, grouped by
  file name (the first file seen under a name is kept). The map from file names to files
  is an association list with distinct keys.
\<close>

fun fetchFiles ::
  "ReflectionServer \<Rightarrow> string list \<Rightarrow> reflectionClient \<Rightarrow>
   (string \<times> FileDescriptorProto) list \<Rightarrow> ReflectionRequest list \<Rightarrow>
   (string \<times> FileDescriptorProto) list \<times> reflectionClient \<times> ReflectionRequest list" where
  "fetchFiles srv [] r fileDescriptorMap reqs = (fileDescriptorMap, r, reqs)"
| "fetchFiles srv (serviceName # rest) r fileDescriptorMap reqs =
     (case getFileDescriptorBySymbol srv r serviceName of
        (Inl e, r', q) \<Rightarrow> fetchFiles srv rest r' fileDescriptorMap (reqs @ q)
      | (Inr fileDescriptor, r', q) \<Rightarrow>
          (let fileName = (if fd_name fileDescriptor = [] then serviceName
                           else fd_name fileDescriptor);
               fileDescriptorMap' =
                 (if map_of fileDescriptorMap fileName = None
                  then fileDescriptorMap @ [(fileName, fileDescriptor)]
                  else fileDescriptorMap)
           in fetchFiles srv rest r' fileDescriptorMap' (reqs @ q)))"

text \<open>
  \<open>DiscoverMethods\<close>. Go ranges over the file map in an unspecified order: \<open>order\<close> is
  the rearrangement of the entries that the run happens to take.
\<close>

definition DiscoverMethods ::
  "((string \<times> FileDescriptorProto) list \<Rightarrow> (string \<times> FileDescriptorProto) list) \<Rightarrow>
   ReflectionServer \<Rightarrow> reflectionClient \<Rightarrow>
   (error + MethodInfo list) \<times> reflectionClient \<times> ReflectionRequest list" where
  "DiscoverMethods order srv r =
     (case listServices srv of
        (Inl e, q) \<Rightarrow> (Inl (FailedToListServices e), r, q)
      | (Inr serviceNames, q) \<Rightarrow>
          (let filteredServices = filterInternalServices serviceNames
           in case fetchFiles srv filteredServices r [] q of
                (fileDescriptorMap, r', reqs) \<Rightarrow>
                  (Inr (concat (map (\<lambda>(fileName, fileDescriptor).
                          extractMethodsFromFileDescriptor srv fileDescriptor filteredServices)
                        (order fileDescriptorMap))),
                   r', reqs)))"


section \<open>Discoverer\<close>

text \<open>
  What the offline path reads from outside the program: the descriptor-set file behind a
  path (\<open>LoadFromFile\<close>: opening, reading and unmarshalling it) and the registry the
  protobuf library builds from the set (\<open>BuildRegistry\<close>), each with its failures.
\<close>

record DescriptorFiles =
  df_LoadFromFile :: "string \<Rightarrow> error + FileDescriptorProto list"
  df_BuildRegistry :: "FileDescriptorProto list \<Rightarrow> error + FileDescriptorProto list"

text \<open>
  The discoverer's state: the reflection client (\<open>nil\<close> before \<open>Connect\<close>), the
  published catalog behind the atomic pointer (a Go map, held as an association list with
  distinct keys) and the descriptor-set configuration.
\<close>

record serviceDiscoverer =
  d_reflectionClient :: "reflectionClient option"
  d_tools :: "(string \<times> MethodInfo) list"
  d_descriptorEnabled :: bool
  d_descriptorPath :: string

definition discoverFromFileDescriptor ::
  "DescriptorFiles \<Rightarrow> serviceDiscoverer \<Rightarrow> error + MethodInfo list" where
  "discoverFromFileDescriptor env d =
     (case df_LoadFromFile env (d_descriptorPath d) of
        Inl e \<Rightarrow> Inl (FailedToLoadDescriptorSet e)
      | Inr fdSet \<Rightarrow>
          (case df_BuildRegistry env fdSet of
             Inl e \<Rightarrow> Inl (FailedToBuildFileRegistry e)
           | Inr files \<Rightarrow> Inr (ExtractMethodInfo files)))"

definition discoverFromReflection ::
  "((string \<times> FileDescriptorProto) list \<Rightarrow> (string \<times> FileDescriptorProto) list) \<Rightarrow>
   ReflectionServer \<Rightarrow> reflectionClient \<Rightarrow>
   (error + MethodInfo list) \<times> reflectionClient \<times> ReflectionRequest list" where
  "discoverFromReflection order srv r =
     (case DiscoverMethods order srv r of
        (Inl e, r', q) \<Rightarrow> (Inl (FailedToDiscoverViaReflection e), r', q)
      | (Inr methods, r', q) \<Rightarrow> (Inr methods, r', q))"

text \<open>The catalog built from a method list: a later method replaces an earlier one of the same tool name.\<close>

definition toolsOf :: "MethodInfo list \<Rightarrow> (string \<times> MethodInfo) list" where
  "toolsOf methods = fold (\<lambda>method tools. AList.update (ToolName method) method tools) methods []"

text \<open>
  \<open>DiscoverServices\<close>. The result is the returned error (\<open>None\<close> for \<open>nil\<close>), the
  discoverer afterwards and the reflection requests sent during the round. The local slice
  \<open>methods\<close> is \<open>nil\<close> exactly when the list is empty: it is \<open>nil\<close> at its
  declaration and after a failed load, and the loader's slice is \<open>nil\<close> when it holds
  no method.
\<close>

definition DiscoverServices ::
  "((string \<times> FileDescriptorProto) list \<Rightarrow> (string \<times> FileDescriptorProto) list) \<Rightarrow>
   DescriptorFiles \<Rightarrow> ReflectionServer \<Rightarrow> serviceDiscoverer \<Rightarrow>
   error option \<times> serviceDiscoverer \<times> ReflectionRequest list" where
  "DiscoverServices order env srv d =
     (case d_reflectionClient d of
        None \<Rightarrow> (Some NotConnected, d, [])
      | Some r \<Rightarrow>
          (let methods =
                 (if d_descriptorEnabled d \<and> d_descriptorPath d \<noteq> []
                  then (case discoverFromFileDescriptor env d of
                          Inr ms \<Rightarrow> ms
                        | Inl e \<Rightarrow> [])
                  else [])
           in if methods = []
              then (case discoverFromReflection order srv r of
                      (Inl e, r', q) \<Rightarrow> (Some e, d\<lparr>d_reflectionClient := Some r'\<rparr>, q)
                    | (Inr ms, r', q) \<Rightarrow>
                        (None, d\<lparr>d_reflectionClient := Some r', d_tools := toolsOf ms\<rparr>, q))
              else (None, d\<lparr>d_tools := toolsOf methods\<rparr>, [])))"

text \<open>\<open>GetMethods\<close>: the catalog's values (Go returns them in an unspecified order).\<close>

definition GetMethods :: "serviceDiscoverer \<Rightarrow> MethodInfo list" where
  "GetMethods d = map snd (d_tools d)"

definition getMethodByTool :: "serviceDiscoverer \<Rightarrow> string \<Rightarrow> MethodInfo option" where
  "getMethodByTool d toolName = map_of (d_tools d) toolName"

section \<open>Dynamic invocation\<close>

text \<open>
  The backend channel and the protobuf codec, over dynamic messages of type \<open>'m\<close>:
  an empty message of a descriptor, \<open>protojson.Unmarshal\<close> into a message,
  \<open>conn.Invoke\<close> with the outgoing metadata, the method path, the input and the output
  message, and \<open>protojson.Marshal\<close>.
\<close>

record 'm Backend =
  dynamicpb_NewMessage :: "string \<Rightarrow> 'm"
  protojson_Unmarshal :: "string \<Rightarrow> 'm \<Rightarrow> error + 'm"
  conn_Invoke :: "(string \<times> string) list \<Rightarrow> string \<Rightarrow> 'm \<Rightarrow> 'm \<Rightarrow> error + 'm"
  protojson_Marshal :: "'m \<Rightarrow> error + string"

text \<open>A unary call put on the channel: metadata, method path, input message.\<close>

datatype 'm RPC = RPC (rpc_metadata: "(string \<times> string) list") (rpc_method: string) (rpc_input: 'm)

text \<open>
  \<open>InvokeMethod\<close>: the result and the calls issued. \<open>headers\<close> is the header map as
  the list of its entries in the order the run ranges over them. The slice expression
  \<open>method.FullName[:strings.LastIndex(method.FullName, ".")]\<close> panics when the name has
  no dot.
\<close>

definition InvokeMethod ::
  "'m Backend \<Rightarrow> (string \<times> string) list \<Rightarrow> MethodInfo \<Rightarrow> string \<Rightarrow>
   (error + string) \<times> 'm RPC list" where
  "InvokeMethod be headers method inputJSON =
     (let inputMsg0 = dynamicpb_NewMessage be (InputDescriptor method)
      in case (if inputJSON \<noteq> [] \<and> inputJSON \<noteq> ''{}''
               then protojson_Unmarshal be inputJSON inputMsg0 else Inr inputMsg0) of
           Inl e \<Rightarrow> (Inl (FailedToParseInputJSON e), [])
         | Inr inputMsg \<Rightarrow>
             (let outputMsg = dynamicpb_NewMessage be (OutputDescriptor method);
                  idx = LastIndex (FullName method) (CHR ''.'')
              in if idx < 0 then (Inl PanicSliceBounds, [])
                 else
                   (let grpcMethodName =
                          ''/'' @ take (nat idx) (FullName method) @ ''/'' @ Name method;
                        call = RPC headers grpcMethodName inputMsg
                    in case conn_Invoke be headers grpcMethodName inputMsg outputMsg of
                         Inl e \<Rightarrow> (Inl (GrpcCallFailed e), [call])
                       | Inr out \<Rightarrow>
                           (case protojson_Marshal be out of
                              Inl e \<Rightarrow> (Inl (FailedToMarshalOutput e), [call])
                            | Inr outputJSON \<Rightarrow> (Inr outputJSON, [call])))))"

definition InvokeMethodByTool ::
  "'m Backend \<Rightarrow> serviceDiscoverer \<Rightarrow> (string \<times> string) list \<Rightarrow> string \<Rightarrow> string \<Rightarrow>
   (error + string) \<times> 'm RPC list" where
  "InvokeMethodByTool be d headers toolName inputJSON =
     (case getMethodByTool d toolName of
        None \<Rightarrow> (Inl (ToolNotFound toolName), [])
      | Some method \<Rightarrow>
          if IsClientStreaming method \<or> IsServerStreaming method
          then (Inl StreamingNotSupported, [])
          else if d_reflectionClient d = None then (Inl NotConnected, [])
          else (case InvokeMethod be headers method inputJSON of
                  (Inl e, calls) \<Rightarrow> (Inl (FailedToInvokeMethod e), calls)
                | (Inr result, calls) \<Rightarrow> (Inr result, calls)))"

section \<open>Connection manager\<close>

datatype ConnState = Idle | Connecting | Ready | TransientFailure | Shutdown

text \<open>
  A channel as the health probe observes it: the state it is in now and the state changes
  ahead of it, each with the time (in milliseconds from now) at which it happens, in
  increasing time.
\<close>

record ClientConn =
  cc_state :: ConnState
  cc_changes :: "(nat \<times> ConnState) list"

text \<open>
  \<open>WaitForStateChange(ctx, sourceState)\<close>: returns \<open>true\<close> as soon as the state is
  not \<open>sourceState\<close>, \<open>false\<close> when the context expires first. \<open>window\<close> is the
  time left to the context; the channel returned is the channel at the moment of return.
\<close>

fun firstChange :: "nat \<Rightarrow> ConnState \<Rightarrow> (nat \<times> ConnState) list \<Rightarrow> ClientConn option" where
  "firstChange window sourceState [] = None"
| "firstChange window sourceState ((t, s) # rest) =
     (if t < window
      then (if s \<noteq> sourceState then Some \<lparr>cc_state = s, cc_changes = rest\<rparr>
            else firstChange window sourceState rest)
      else None)"

definition WaitForStateChange :: "nat \<Rightarrow> ConnState \<Rightarrow> ClientConn \<Rightarrow> bool \<times> ClientConn" where
  "WaitForStateChange window sourceState conn =
     (if cc_state conn \<noteq> sourceState then (True, conn)
      else (case firstChange window sourceState (cc_changes conn) of
              None \<Rightarrow> (False, conn)
            | Some conn' \<Rightarrow> (True, conn')))"

text \<open>
  \<open>context.WithTimeout(ctx, 5*time.Second)\<close>: the time left to the derived context,
  given the time left to its parent (\<open>None\<close>: the parent has no deadline).
\<close>

definition WithTimeout :: "nat option \<Rightarrow> nat \<Rightarrow> nat" where
  "WithTimeout ctx ms = (case ctx of None \<Rightarrow> ms | Some left \<Rightarrow> min left ms)"

definition healthCheckLocked :: "nat option \<Rightarrow> ClientConn option \<Rightarrow> error option" where
  "healthCheckLocked ctx cm_conn =
     (case cm_conn of
        None \<Rightarrow> Some NoConnectionAvailable
      | Some conn \<Rightarrow>
          (let state = cc_state conn
           in if state = TransientFailure \<or> state = Shutdown then Some UnhealthyState
              else if state \<noteq> Ready
              then (let healthCtx = WithTimeout ctx 5000
                    in case WaitForStateChange healthCtx state conn of
                         (False, conn') \<Rightarrow> Some StateDidNotChange
                       | (True, conn') \<Rightarrow>
                           if cc_state conn' \<noteq> Ready then Some FailedToBecomeReady else None)
              else None))"

definition HealthCheck :: "nat option \<Rightarrow> ClientConn option \<Rightarrow> error option" where
  "HealthCheck ctx cm_conn = healthCheckLocked ctx cm_conn"


section \<open>Schema projector\<close>

text \<open>
  JSON values. A Go \<open>map[string]interface{}\<close> is an association list with distinct
  keys, written with \<^const>\<open>AList.update\<close> (an assignment to a key that is present
  replaces its value); the order of the keys has no meaning.
\<close>

datatype json =
    JString string
  | JNumber int
  | JBool bool
  | JArray "json list"
  | JObject "(string \<times> json) list"

type_synonym schema = "(string \<times> json) list"

datatype Kind =
    BoolKind | EnumKind | Int32Kind | Sint32Kind | Uint32Kind | Int64Kind | Sint64Kind
  | Uint64Kind | Sfixed32Kind | Fixed32Kind | FloatKind | Sfixed64Kind | Fixed64Kind
  | DoubleKind | StringKind | BytesKind | MessageKind | GroupKind

record EnumValueDescriptor =
  ev_Name :: string
  ev_loc :: SourceLocation

record EnumDescriptor =
  en_Values :: "EnumValueDescriptor list"
  en_loc :: SourceLocation

text \<open>
  What \<open>extractFieldTypeSchemaInternal\<close> reads of a field: its kind, its enum and the
  full name of its message. A map field's \<open>MapValue()\<close> is such a triple too.
\<close>

record FieldType =
  ft_Kind :: Kind
  ft_Enum :: EnumDescriptor
  ft_Message :: string

record FieldDescriptor =
  f_Name :: string
  f_Type :: FieldType
  f_IsList :: bool
  f_IsMap :: bool
  f_MapValue :: FieldType
  f_HasOptionalKeyword :: bool
  f_HasPresence :: bool
  f_loc :: SourceLocation

record OneofDescriptor =
  o_Name :: string
  o_Fields :: "FieldDescriptor list"
  o_loc :: SourceLocation

text \<open>
  \<open>m_Fields\<close> is \<open>Fields()\<close>: every field of the message, the members of its
  one-of groups among them.
\<close>

record MessageDescriptor =
  m_Fields :: "FieldDescriptor list"
  m_Oneofs :: "OneofDescriptor list"
  m_loc :: SourceLocation

text \<open>
  The messages known to the program, by full name. Message types refer to each other by
  name, so the type graph may be cyclic. A name with no entry is a placeholder message (no
  field, no one-of, no comment), as the protobuf library gives for an unresolvable
  reference.
\<close>

type_synonym registry = "(string \<times> MessageDescriptor) list"

definition placeholderMessage :: MessageDescriptor where
  "placeholderMessage =
     \<lparr> m_Fields = [], m_Oneofs = [],
       m_loc = \<lparr> LeadingComments = [], TrailingComments = [] \<rparr> \<rparr>"

definition Message :: "registry \<Rightarrow> string \<Rightarrow> MessageDescriptor" where
  "Message reg fullName =
     (case map_of reg fullName of Some msgDesc \<Rightarrow> msgDesc | None \<Rightarrow> placeholderMessage)"

text \<open>
  The outcome of a projection step: \<open>None\<close> when the recursion budget ran out before
  the step returned; otherwise the value or error returned and the visited set at return.
  The projector's functions call each other; each takes the function it calls on a nested
  message as \<open>rec\<close>.
\<close>

type_synonym 'a step = "('a \<times> string set) option"

type_synonym projector = "string \<Rightarrow> string set \<Rightarrow> (error + schema) step"

definition enumDescriptionsOf :: "EnumValueDescriptor list \<Rightarrow> (string \<times> json) list" where
  "enumDescriptionsOf vs =
     fold (\<lambda>enumValue ds.
        if extractComments (ev_loc enumValue) \<noteq> []
        then AList.update (ev_Name enumValue) (JString (extractComments (ev_loc enumValue))) ds
        else ds) vs []"

definition enumSchema :: "EnumDescriptor \<Rightarrow> schema" where
  "enumSchema enumDesc =
     (let enumValues = map (\<lambda>enumValue. JString (ev_Name enumValue)) (en_Values enumDesc);
          enumDescriptions = enumDescriptionsOf (en_Values enumDesc);
          schema1 = [(''type'', JString ''string''), (''enum'', JArray enumValues)];
          schema2 = (if extractComments (en_loc enumDesc) \<noteq> []
                     then AList.update ''description''
                            (JString (extractComments (en_loc enumDesc))) schema1
                     else schema1)
      in if enumDescriptions \<noteq> []
         then AList.update ''enumDescriptions'' (JObject enumDescriptions) schema2
         else schema2)"

text \<open>The well-known message types and their canonical shapes.\<close>

definition wellKnownSchema :: "string \<Rightarrow> schema option" where
  "wellKnownSchema fullName =
     (if fullName = ''google.protobuf.Any'' then
        Some [(''type'', JString ''object''),
              (''description'', JString ''Any contains an arbitrary serialized protocol buffer message'')]
      else if fullName = ''google.protobuf.Timestamp'' then
        Some [(''type'', JString ''string''), (''format'', JString ''date-time''),
              (''description'', JString ''RFC 3339 formatted timestamp'')]
      else if fullName = ''google.protobuf.Duration'' then
        Some [(''type'', JString ''string''), (''format'', JString ''duration''),
              (''description'', JString ''Duration in seconds with up to 9 fractional digits'')]
      else if fullName = ''google.protobuf.Struct'' then
        Some [(''type'', JString ''object''),
              (''description'', JString ''Arbitrary JSON-like structure'')]
      else if fullName = ''google.protobuf.Value'' then
        Some [(''description'', JString ''Any JSON value'')]
      else if fullName = ''google.protobuf.ListValue'' then
        Some [(''type'', JString ''array''), (''description'', JString ''Array of JSON values'')]
      else if fullName = ''google.protobuf.StringValue'' \<or> fullName = ''google.protobuf.BytesValue'' then
        Some [(''type'', JString ''string'')]
      else if fullName = ''google.protobuf.BoolValue'' then
        Some [(''type'', JString ''boolean'')]
      else if fullName = ''google.protobuf.Int32Value'' \<or> fullName = ''google.protobuf.UInt32Value''
            \<or> fullName = ''google.protobuf.Int64Value'' \<or> fullName = ''google.protobuf.UInt64Value'' then
        Some [(''type'', JString ''integer'')]
      else if fullName = ''google.protobuf.FloatValue'' \<or> fullName = ''google.protobuf.DoubleValue'' then
        Some [(''type'', JString ''number'')]
      else None)"

definition refSchema :: "string \<Rightarrow> schema" where
  "refSchema fullName = [(''$ref'', JString (''#/definitions/'' @ fullName))]"

definition extractFieldTypeSchemaInternal ::
  "projector \<Rightarrow> FieldType \<Rightarrow> string set \<Rightarrow> (error + schema) step" where
  "extractFieldTypeSchemaInternal rec field visited =
     (case ft_Kind field of
        BoolKind \<Rightarrow> Some (Inr [(''type'', JString ''boolean'')], visited)
      | Int32Kind \<Rightarrow> Some (Inr [(''type'', JString ''integer''), (''format'', JString ''int32'')], visited)
      | Sint32Kind \<Rightarrow> Some (Inr [(''type'', JString ''integer''), (''format'', JString ''int32'')], visited)
      | Sfixed32Kind \<Rightarrow> Some (Inr [(''type'', JString ''integer''), (''format'', JString ''int32'')], visited)
      | Int64Kind \<Rightarrow> Some (Inr [(''type'', JString ''integer''), (''format'', JString ''int64'')], visited)
      | Sint64Kind \<Rightarrow> Some (Inr [(''type'', JString ''integer''), (''format'', JString ''int64'')], visited)
      | Sfixed64Kind \<Rightarrow> Some (Inr [(''type'', JString ''integer''), (''format'', JString ''int64'')], visited)
      | Uint32Kind \<Rightarrow>
          Some (Inr [(''type'', JString ''integer''), (''format'', JString ''uint32''),
                     (''minimum'', JNumber 0)], visited)
      | Fixed32Kind \<Rightarrow>
          Some (Inr [(''type'', JString ''integer''), (''format'', JString ''uint32''),
                     (''minimum'', JNumber 0)], visited)
      | Uint64Kind \<Rightarrow>
          Some (Inr [(''type'', JString ''integer''), (''format'', JString ''uint64''),
                     (''minimum'', JNumber 0)], visited)
      | Fixed64Kind \<Rightarrow>
          Some (Inr [(''type'', JString ''integer''), (''format'', JString ''uint64''),
                     (''minimum'', JNumber 0)], visited)
      | FloatKind \<Rightarrow> Some (Inr [(''type'', JString ''number''), (''format'', JString ''float'')], visited)
      | DoubleKind \<Rightarrow> Some (Inr [(''type'', JString ''number''), (''format'', JString ''double'')], visited)
      | StringKind \<Rightarrow> Some (Inr [(''type'', JString ''string'')], visited)
      | BytesKind \<Rightarrow> Some (Inr [(''type'', JString ''string''), (''format'', JString ''byte'')], visited)
      | EnumKind \<Rightarrow> Some (Inr (enumSchema (ft_Enum field)), visited)
      | MessageKind \<Rightarrow>
          (case wellKnownSchema (ft_Message field) of
             Some schema \<Rightarrow> Some (Inr schema, visited)
           | None \<Rightarrow>
               (case rec (ft_Message field) visited of
                  None \<Rightarrow> None
                | Some (Inl e, visited') \<Rightarrow>
                    Some (Inl (FailedMessageSchema (ft_Message field) e), visited')
                | Some (Inr messageSchema, visited') \<Rightarrow> Some (Inr messageSchema, visited')))
      | GroupKind \<Rightarrow> Some (Inl UnsupportedFieldKind, visited))"

definition extractFieldSchemaInternal ::
  "projector \<Rightarrow> FieldDescriptor \<Rightarrow> string set \<Rightarrow> (error + schema) step" where
  "extractFieldSchemaInternal rec field visited =
     (let schema = (if extractComments (f_loc field) \<noteq> []
                    then [(''description'', JString (extractComments (f_loc field)))] else [])
      in if f_IsList field then
           (case extractFieldTypeSchemaInternal rec (f_Type field) visited of
              None \<Rightarrow> None
            | Some (Inl e, visited') \<Rightarrow> Some (Inl e, visited')
            | Some (Inr itemSchema, visited') \<Rightarrow>
                Some (Inr (AList.update ''items'' (JObject itemSchema)
                            (AList.update ''type'' (JString ''array'') schema)), visited'))
         else if f_IsMap field then
           (case extractFieldTypeSchemaInternal rec (f_MapValue field) visited of
              None \<Rightarrow> None
            | Some (Inl e, visited') \<Rightarrow> Some (Inl e, visited')
            | Some (Inr valueSchema, visited') \<Rightarrow>
                Some (Inr (AList.update ''additionalProperties'' (JBool False)
                            (AList.update ''patternProperties'' (JObject [(''.*'', JObject valueSchema)])
                              (AList.update ''type'' (JString ''object'') schema))), visited'))
         else extractFieldTypeSchemaInternal rec (f_Type field) visited)"

text \<open>
  The loop over \<open>msgDesc.Fields()\<close>: the properties and the required names so far are
  carried along; a field whose projection fails is skipped.
\<close>

fun fieldsLoop ::
  "projector \<Rightarrow> FieldDescriptor list \<Rightarrow> schema \<Rightarrow> string list \<Rightarrow> string set \<Rightarrow>
   (schema \<times> string list) step" where
  "fieldsLoop rec [] properties required visited = Some ((properties, required), visited)"
| "fieldsLoop rec (field # rest) properties required visited =
     (case extractFieldSchemaInternal rec field visited of
        None \<Rightarrow> None
      | Some (Inl e, visited') \<Rightarrow> fieldsLoop rec rest properties required visited'
      | Some (Inr fieldSchema, visited') \<Rightarrow>
          fieldsLoop rec rest
            (AList.update (f_Name field) (JObject fieldSchema) properties)
            (if f_HasOptionalKeyword field \<or> f_HasPresence field then required
             else required @ [f_Name field])
            visited')"

text \<open>The loop over the members of one one-of group: the alternatives so far are carried along.\<close>

fun oneofFieldsLoop ::
  "projector \<Rightarrow> FieldDescriptor list \<Rightarrow> json list \<Rightarrow> string set \<Rightarrow> (json list) step" where
  "oneofFieldsLoop rec [] oneOf visited = Some (oneOf, visited)"
| "oneofFieldsLoop rec (field # rest) oneOf visited =
     (case extractFieldSchemaInternal rec field visited of
        None \<Rightarrow> None
      | Some (Inl e, visited') \<Rightarrow> oneofFieldsLoop rec rest oneOf visited'
      | Some (Inr fieldSchema, visited') \<Rightarrow>
          oneofFieldsLoop rec rest
            (oneOf @ [JObject [(''type'', JString ''object''),
                               (''properties'', JObject [(f_Name field, JObject fieldSchema)]),
                               (''required'', JArray [JString (f_Name field)])]])
            visited')"

text \<open>The loop over \<open>msgDesc.Oneofs()\<close>.\<close>

fun oneofsLoop ::
  "projector \<Rightarrow> OneofDescriptor list \<Rightarrow> schema \<Rightarrow> string set \<Rightarrow> schema step" where
  "oneofsLoop rec [] properties visited = Some (properties, visited)"
| "oneofsLoop rec (oneof # rest) properties visited =
     (let oneofSchema0 = [(''type'', JString ''object''), (''oneOf'', JArray [])];
          oneofSchema = (if extractComments (o_loc oneof) \<noteq> []
                         then AList.update ''description''
                                (JString (extractComments (o_loc oneof))) oneofSchema0
                         else oneofSchema0)
      in case oneofFieldsLoop rec (o_Fields oneof) [] visited of
           None \<Rightarrow> None
         | Some (oneOf, visited') \<Rightarrow>
             oneofsLoop rec rest
               (AList.update (o_Name oneof)
                  (JObject (AList.update ''oneOf'' (JArray oneOf) oneofSchema)) properties)
               visited')"

text \<open>
  The body of \<open>extractMessageSchemaInternal\<close> between the entry (the name is in the
  visited set) and the deferred removal.
\<close>

definition messageBody ::
  "projector \<Rightarrow> MessageDescriptor \<Rightarrow> string set \<Rightarrow> schema step" where
  "messageBody rec msgDesc visited =
     (let schema0 = [(''type'', JString ''object''), (''properties'', JObject [])];
          schema1 = (if extractComments (m_loc msgDesc) \<noteq> []
                     then AList.update ''description''
                            (JString (extractComments (m_loc msgDesc))) schema0
                     else schema0)
      in case fieldsLoop rec (m_Fields msgDesc) [] [] visited of
           None \<Rightarrow> None
         | Some ((properties, required), visited1) \<Rightarrow>
             (case oneofsLoop rec (m_Oneofs msgDesc) properties visited1 of
                None \<Rightarrow> None
              | Some (properties', visited2) \<Rightarrow>
                  (let schema2 = AList.update ''properties'' (JObject properties') schema1
                   in Some (if required \<noteq> []
                            then AList.update ''required'' (JArray (map JString required)) schema2
                            else schema2,
                            visited2))))"

text \<open>
  \<open>extractMessageSchemaInternal\<close>, on the message of a full name. The first argument
  bounds the depth of nested calls: the Go function has no such bound, and the model
  returns \<open>None\<close> where the bound is reached.
\<close>

fun extractMessageSchemaInternal ::
  "nat \<Rightarrow> registry \<Rightarrow> string \<Rightarrow> string set \<Rightarrow> (error + schema) step" where
  "extractMessageSchemaInternal 0 reg fullName visited = None"
| "extractMessageSchemaInternal (Suc depth) reg fullName visited =
     (if fullName \<in> visited then Some (Inr (refSchema fullName), visited)
      else (case messageBody (\<lambda>n v. extractMessageSchemaInternal depth reg n v)
                   (Message reg fullName) (insert fullName visited) of
              None \<Rightarrow> None
            | Some (schema, visited') \<Rightarrow> Some (Inr schema, visited' - {fullName})))"

text \<open>
  \<open>ExtractMessageSchema\<close>: the projection from an empty visited set. A nested call
  enters a message that is not in the visited set and is either registered or a
  placeholder without fields, so the depth never exceeds the number of registered
  messages plus one.
\<close>

definition ExtractMessageSchema :: "registry \<Rightarrow> string \<Rightarrow> (error + schema) option" where
  "ExtractMessageSchema reg fullName =
     map_option fst (extractMessageSchemaInternal (Suc (length reg)) reg fullName {})"

section \<open>Tool builder\<close>

record Tool =
  tool_Name :: string
  tool_Description :: string
  tool_InputSchema :: "schema option"
  tool_OutputSchema :: "schema option"

definition generateDescription :: "MethodInfo \<Rightarrow> string" where
  "generateDescription method =
     (if Description method \<noteq> [] then Description method
      else ''Calls the '' @ Name method @ '' method of the '' @ ServiceName method @ '' service'')"

definition validateTool :: "Tool \<Rightarrow> error option" where
  "validateTool tool =
     (if tool_Name tool = [] then Some ToolNameEmpty
      else if tool_Description tool = [] then Some ToolDescriptionEmpty
      else if tool_InputSchema tool = None then Some ToolInputSchemaNil
      else if \<not> Contains (tool_Name tool) (CHR ''_'') then Some ToolNameNoUnderscore
      else None)"

text \<open>\<open>BuildTool\<close>; \<open>None\<close> when a projection did not return.\<close>

definition BuildTool :: "registry \<Rightarrow> MethodInfo \<Rightarrow> (error + Tool) option" where
  "BuildTool reg method =
     (let toolName = GenerateToolName method;
          description = generateDescription method
      in case ExtractMessageSchema reg (InputDescriptor method) of
           None \<Rightarrow> None
         | Some (Inl e) \<Rightarrow> Some (Inl (FailedInputSchema e))
         | Some (Inr inputSchema) \<Rightarrow>
             (case ExtractMessageSchema reg (OutputDescriptor method) of
                None \<Rightarrow> None
              | Some (Inl e) \<Rightarrow> Some (Inl (FailedOutputSchema e))
              | Some (Inr outputSchema) \<Rightarrow>
                  (let tool = \<lparr> tool_Name = toolName, tool_Description = description,
                                tool_InputSchema = Some inputSchema,
                                tool_OutputSchema = Some outputSchema \<rparr>
                   in case validateTool tool of
                        Some e \<Rightarrow> Some (Inl (ToolValidationFailed e))
                      | None \<Rightarrow> Some (Inr tool))))"


section \<open>Notions used in the statements\<close>

text \<open>
  The definitions of this section are not functions of the program: they name what the
  theorems say about it. First, properties of a projector function: it hands back the
  visited set it was given; it never returns an error; it returns on every message at a
  given visited set; one projector returns whatever another one returns.
\<close>

definition restoring :: "projector \<Rightarrow> bool" where
  "restoring rec = (\<forall>n v r v'. rec n v = Some (r, v') \<longrightarrow> v' = v)"

definition noError :: "projector \<Rightarrow> bool" where
  "noError rec = (\<forall>n v e v'. rec n v \<noteq> Some (Inl e, v'))"

definition totalAt :: "projector \<Rightarrow> string set \<Rightarrow> bool" where
  "totalAt rec v = (\<forall>n. rec n v \<noteq> None)"

definition extends :: "projector \<Rightarrow> projector \<Rightarrow> bool" where
  "extends rec rec' = (\<forall>n v x. rec n v = Some x \<longrightarrow> rec' n v = Some x)"

text \<open>The number of registered messages that are not in the visited set.\<close>

definition unvisited :: "registry \<Rightarrow> string set \<Rightarrow> nat" where
  "unvisited reg v = card (fst ` set reg - v)"

text \<open>
  The type whose kind decides whether a field projects: the element type of a repeated
  field, the value type of a map field, the field's own type otherwise.
\<close>

definition projectedType :: "FieldDescriptor \<Rightarrow> FieldType" where
  "projectedType field =
     (if f_IsList field then f_Type field
      else if f_IsMap field then f_MapValue field else f_Type field)"

text \<open>
  A field that ends up in \<open>required\<close>: no optional keyword, no presence tracking, and
  a projection that succeeds (every kind but the group kind).
\<close>

definition listedRequired :: "FieldDescriptor \<Rightarrow> bool" where
  "listedRequired field =
     (\<not> (f_HasOptionalKeyword field \<or> f_HasPresence field) \<and>
      ft_Kind (projectedType field) \<noteq> GroupKind)"

text \<open>The \<open>required\<close> array of a schema (empty when the key is absent).\<close>

definition requiredOf :: "schema \<Rightarrow> json list" where
  "requiredOf schema =
     (case map_of schema ''required'' of Some (JArray names) \<Rightarrow> names | _ \<Rightarrow> [])"

text \<open>A field whose projection succeeds: its projected type is not of the group kind.\<close>

definition projects :: "FieldDescriptor \<Rightarrow> bool" where
  "projects field = (ft_Kind (projectedType field) \<noteq> GroupKind)"

text \<open>The \<open>properties\<close> object of a schema (empty when the key is absent).\<close>

definition propertiesOf :: "schema \<Rightarrow> (string \<times> json) list" where
  "propertiesOf schema =
     (case map_of schema ''properties'' of Some (JObject props) \<Rightarrow> props | _ \<Rightarrow> [])"

text \<open>
  The input message that \<open>InvokeMethod\<close> builds before the call: the empty message of
  the input descriptor, with the input JSON parsed into it unless the JSON is empty or
  \<open>{}\<close>; or the parser's error.
\<close>

definition inputMessage :: "'m Backend \<Rightarrow> MethodInfo \<Rightarrow> string \<Rightarrow> error + 'm" where
  "inputMessage be method inputJSON =
     (if inputJSON \<noteq> [] \<and> inputJSON \<noteq> ''{}''
      then protojson_Unmarshal be inputJSON (dynamicpb_NewMessage be (InputDescriptor method))
      else Inr (dynamicpb_NewMessage be (InputDescriptor method)))"

text \<open>
  A channel becomes ready within a window: one of the state changes ahead of it, earlier
  than the window's end, is to \<open>Ready\<close>.
\<close>

definition becomesReadyWithin :: "nat \<Rightarrow> ClientConn \<Rightarrow> bool" where
  "becomesReadyWithin window conn =
     list_ex (\<lambda>(t, s). t < window \<and> s = Ready) (cc_changes conn)"

section \<open>Example inputs\<close>

definition noComments :: SourceLocation where
  "noComments = \<lparr> LeadingComments = [], TrailingComments = [] \<rparr>"

definition unaryMethod :: "string \<Rightarrow> string \<Rightarrow> string \<Rightarrow> MethodDescriptorProto" where
  "unaryMethod name input output =
     \<lparr> md_name = name, md_input_type = input, md_output_type = output,
       md_client_streaming = False, md_server_streaming = False, md_loc = noComments \<rparr>"

definition helloFile :: FileDescriptorProto where
  "helloFile =
     \<lparr> fd_name = ''hello.proto'', fd_package = ''hello'',
       fd_service = [\<lparr> sd_name = ''HelloService'',
                       sd_method = [unaryMethod ''SayHello'' ''.hello.HelloRequest'' ''.hello.HelloReply''],
                       sd_loc = noComments \<rparr>] \<rparr>"

definition healthFile :: FileDescriptorProto where
  "healthFile =
     \<lparr> fd_name = ''grpc/health/v1/health.proto'', fd_package = ''grpc.health.v1'',
       fd_service = [\<lparr> sd_name = ''Health'',
                       sd_method = [unaryMethod ''Check'' ''.grpc.health.v1.HealthCheckRequest''
                                      ''.grpc.health.v1.HealthCheckResponse''],
                       sd_loc = noComments \<rparr>] \<rparr>"

text \<open>A file of package \<open>grpc\<close> with a service named \<open>health\<close>.\<close>

definition lowerHealthFile :: FileDescriptorProto where
  "lowerHealthFile =
     \<lparr> fd_name = ''health.proto'', fd_package = ''grpc'',
       fd_service = [\<lparr> sd_name = ''health'',
                       sd_method = [unaryMethod ''Check'' ''.grpc.Ping'' ''.grpc.Pong''],
                       sd_loc = noComments \<rparr>] \<rparr>"

text \<open>A file that declares messages and no service.\<close>

definition typesOnlyFile :: FileDescriptorProto where
  "typesOnlyFile = \<lparr> fd_name = ''types.proto'', fd_package = ''hello'', fd_service = [] \<rparr>"

definition helloServer :: ReflectionServer where
  "helloServer =
     \<lparr> rs_ListServices =
         Inr [''grpc.reflection.v1alpha.ServerReflection'', ''grpc.health.v1.Health'',
              ''hello.HelloService''],
       rs_FileContainingSymbol =
         (\<lambda>symbol. if symbol = ''hello.HelloService'' then Inr helloFile
                    else if symbol = ''grpc.health.v1.Health'' then Inr healthFile
                    else Inl (External ''symbol not found'')),
       rs_FindMessage = (\<lambda>typeName fd. Inr typeName) \<rparr>"

definition lowerHealthServer :: ReflectionServer where
  "lowerHealthServer =
     \<lparr> rs_ListServices = Inr [''grpc.health''],
       rs_FileContainingSymbol = (\<lambda>symbol. Inr lowerHealthFile),
       rs_FindMessage = (\<lambda>typeName fd. Inr typeName) \<rparr>"

definition downServer :: ReflectionServer where
  "downServer =
     \<lparr> rs_ListServices = Inl (External ''unavailable''),
       rs_FileContainingSymbol = (\<lambda>symbol. Inl (External ''unavailable'')),
       rs_FindMessage = (\<lambda>typeName fd. Inl (External ''unavailable'')) \<rparr>"

text \<open>A descriptor-set file that loads and registers, holding the given files.\<close>

definition descriptorFilesOf :: "FileDescriptorProto list \<Rightarrow> DescriptorFiles" where
  "descriptorFilesOf files =
     \<lparr> df_LoadFromFile = (\<lambda>path. Inr files), df_BuildRegistry = (\<lambda>fdSet. Inr fdSet) \<rparr>"

definition reflectionDiscoverer :: serviceDiscoverer where
  "reflectionDiscoverer =
     \<lparr> d_reflectionClient = Some NewReflectionClient, d_tools = [],
       d_descriptorEnabled = False, d_descriptorPath = [] \<rparr>"

definition offlineDiscoverer :: serviceDiscoverer where
  "offlineDiscoverer =
     \<lparr> d_reflectionClient = Some NewReflectionClient, d_tools = [],
       d_descriptorEnabled = True, d_descriptorPath = ''services.binpb'' \<rparr>"

definition helloMethod :: MethodInfo where
  "helloMethod =
     \<lparr> Name = ''SayHello'', FullName = ''hello.HelloService.SayHello'',
       ServiceName = ''hello.HelloService'', ServiceDescription = [], Description = [],
       InputType = ''.hello.HelloRequest'', OutputType = ''.hello.HelloReply'',
       InputDescriptor = ''hello.HelloRequest'', OutputDescriptor = ''hello.HelloReply'',
       IsClientStreaming = False, IsServerStreaming = False,
       ToolName = ''hello_helloservice_sayhello'' \<rparr>"

definition watchMethod :: MethodInfo where
  "watchMethod =
     helloMethod\<lparr> Name := ''Watch'', FullName := ''hello.HelloService.Watch'',
                  IsServerStreaming := True, ToolName := ''hello_helloservice_watch'' \<rparr>"

definition readyDiscoverer :: serviceDiscoverer where
  "readyDiscoverer =
     reflectionDiscoverer\<lparr> d_tools := toolsOf [helloMethod, watchMethod] \<rparr>"

text \<open>A backend whose messages are JSON texts and whose methods echo their input.\<close>

definition echoBackend :: "string Backend" where
  "echoBackend =
     \<lparr> dynamicpb_NewMessage = (\<lambda>desc. ''{}''),
       protojson_Unmarshal =
         (\<lambda>inputJSON msg. if take 1 inputJSON = ''{'' then Inr inputJSON
                           else Inl (External ''syntax error'')),
       conn_Invoke = (\<lambda>md path inputMsg outputMsg. Inr inputMsg),
       protojson_Marshal = (\<lambda>msg. Inr msg) \<rparr>"

text \<open>
  A backend that serves one method path, \<open>/hello.HelloService/SayHello\<close>, asks for
  the trace header and echoes the input; every other path is unimplemented.
\<close>

definition routingBackend :: "string Backend" where
  "routingBackend =
     \<lparr> dynamicpb_NewMessage = (\<lambda>desc. ''{}''),
       protojson_Unmarshal = (\<lambda>inputJSON msg. Inr inputJSON),
       conn_Invoke =
         (\<lambda>md path inputMsg outputMsg.
            if path \<noteq> ''/hello.HelloService/SayHello'' then Inl (External ''unimplemented'')
            else if md \<noteq> [(''x-trace-id'', ''abc'')] then Inl (External ''no trace id'')
            else Inr inputMsg),
       protojson_Marshal = (\<lambda>msg. Inr msg) \<rparr>"

text \<open>The same channel with every other path answered by a second service.\<close>

definition sharedInvoke ::
  "(string \<times> string) list \<Rightarrow> string \<Rightarrow> string \<Rightarrow> string \<Rightarrow> error + string" where
  "sharedInvoke md path inputMsg outputMsg =
     (if path = ''/hello.HelloService/SayHello''
      then conn_Invoke routingBackend md path inputMsg outputMsg
      else Inr ''elsewhere'')"

text \<open>A method record whose full name has no dot.\<close>

definition bareMethod :: MethodInfo where
  "bareMethod = helloMethod\<lparr> FullName := ''SayHello'' \<rparr>"

definition plainTool :: Tool where
  "plainTool = \<lparr> tool_Name = ''sayhello'', tool_Description = ''Says hello'',
                   tool_InputSchema = Some [(''type'', JString ''object'')],
                   tool_OutputSchema = None \<rparr>"

text \<open>A channel that leaves \<open>Idle\<close> after 100 ms and is ready after 200 ms.\<close>

definition twoStepConn :: ClientConn where
  "twoStepConn = \<lparr> cc_state = Idle, cc_changes = [(100, Connecting), (200, Ready)] \<rparr>"

definition connectingConn :: ClientConn where
  "connectingConn = \<lparr> cc_state = Connecting, cc_changes = [(150, Ready)] \<rparr>"

definition plainType :: "Kind \<Rightarrow> FieldType" where
  "plainType kind =
     \<lparr> ft_Kind = kind, ft_Enum = \<lparr> en_Values = [], en_loc = noComments \<rparr>, ft_Message = [] \<rparr>"

definition messageType :: "string \<Rightarrow> FieldType" where
  "messageType fullName = (plainType MessageKind)\<lparr> ft_Message := fullName \<rparr>"

definition singularField :: "string \<Rightarrow> FieldType \<Rightarrow> bool \<Rightarrow> bool \<Rightarrow> FieldDescriptor" where
  "singularField name type optional presence =
     \<lparr> f_Name = name, f_Type = type, f_IsList = False, f_IsMap = False,
       f_MapValue = plainType BoolKind, f_HasOptionalKeyword = optional,
       f_HasPresence = presence, f_loc = noComments \<rparr>"

definition repeatedField :: "string \<Rightarrow> FieldType \<Rightarrow> FieldDescriptor" where
  "repeatedField name type = (singularField name type False False)\<lparr> f_IsList := True \<rparr>"

text \<open>\<open>message Node { string v = 1; Node next = 2; }\<close>\<close>

definition nodeRegistry :: registry where
  "nodeRegistry =
     [(''Node'', \<lparr> m_Fields = [singularField ''v'' (plainType StringKind) False False,
                               singularField ''next'' (messageType ''Node'') False True],
                   m_Oneofs = [], m_loc = noComments \<rparr>)]"

text \<open>Two messages that refer to each other: \<open>A.b\<close> is a \<open>B\<close> and \<open>B.a\<close> is an \<open>A\<close>.\<close>

definition ringRegistry :: registry where
  "ringRegistry =
     [(''A'', \<lparr> m_Fields = [singularField ''b'' (messageType ''B'') False True],
                m_Oneofs = [], m_loc = noComments \<rparr>),
      (''B'', \<lparr> m_Fields = [singularField ''a'' (messageType ''A'') False True],
                m_Oneofs = [], m_loc = noComments \<rparr>)]"

text \<open>
  A proto2 message with a string, an optional string, a repeated string and a repeated
  group:
  \<open>message Batch { required string id = 1; optional string note = 2;
  repeated string tags = 3; repeated group Items = 4 { ... } }\<close>, the first field taken
  without presence as in proto3.
\<close>

definition itemsField :: FieldDescriptor where
  "itemsField = repeatedField ''items'' ((plainType GroupKind)\<lparr> ft_Message := ''shop.Batch.Items'' \<rparr>)"

definition batchRegistry :: registry where
  "batchRegistry =
     [(''shop.Batch'', \<lparr> m_Fields = [singularField ''id'' (plainType StringKind) False False,
                                      singularField ''note'' (plainType StringKind) True True,
                                      repeatedField ''tags'' (plainType StringKind),
                                      itemsField],
                          m_Oneofs = [], m_loc = noComments \<rparr>)]"


section \<open>The last dot of a name\<close>

lemma LastIndex_neg_iff: "LastIndex s c < 0 \<longleftrightarrow> c \<notin> set s"
  by (induction s) (auto simp: Let_def)

lemma LastIndex_split:
  "0 \<le> LastIndex s c \<Longrightarrow>
   \<exists>rest. s = take (nat (LastIndex s c)) s @ c # rest \<and> c \<notin> set rest"
proof (induction s)
  case Nil
  then show ?case by simp
next
  case (Cons x xs)
  show ?case
  proof (cases "0 \<le> LastIndex xs c")
    case True
    with Cons.IH obtain rest where
      r: "xs = take (nat (LastIndex xs c)) xs @ c # rest" "c \<notin> set rest"
      by blast
    from True have "nat (LastIndex xs c + 1) = Suc (nat (LastIndex xs c))" by simp
    with True r show ?thesis by (auto simp: Let_def)
  next
    case False
    then have neg: "LastIndex xs c < 0" by simp
    then have "c \<notin> set xs" by (simp add: LastIndex_neg_iff)
    with Cons.prems neg show ?thesis by (auto simp: Let_def split: if_splits)
  qed
qed

lemma LastIndex_absent: "c \<notin> set s \<Longrightarrow> LastIndex s c = - 1"
  by (induction s) (auto simp: Let_def)

lemma LastIndex_last_dot:
  "c \<notin> set rest \<Longrightarrow> LastIndex (service @ c # rest) c = int (length service)"
  by (induction service) (auto simp: Let_def LastIndex_absent)

section \<open>Dynamic invocation: the calls put on the channel\<close>

lemma InvokeMethod_calls:
  "c \<in> set (snd (InvokeMethod be headers method inputJSON)) \<Longrightarrow>
   0 \<le> LastIndex (FullName method) (CHR ''.'') \<and>
   rpc_metadata c = headers \<and>
   rpc_method c = ''/'' @ take (nat (LastIndex (FullName method) (CHR ''.''))) (FullName method)
                   @ ''/'' @ Name method"
  by (auto simp: InvokeMethod_def Let_def split: sum.splits if_splits)

lemma InvokeMethod_at_most_one_call: "length (snd (InvokeMethod be headers method inputJSON)) \<le> 1"
  by (auto simp: InvokeMethod_def Let_def split: sum.splits if_splits)

lemma InvokeMethod_no_dot_panics:
  "CHR ''.'' \<notin> set (FullName method) \<Longrightarrow> inputJSON = [] \<Longrightarrow>
   InvokeMethod be headers method inputJSON = (Inl PanicSliceBounds, [])"
  using LastIndex_neg_iff[of "FullName method" "CHR ''.''"]
  by (simp add: InvokeMethod_def Let_def)

lemma eval_invoke_hello:
  "InvokeMethod echoBackend [] helloMethod ''{}''
     = (Inr ''{}'', [RPC [] ''/hello.HelloService/SayHello'' ''{}''])"
  by (simp add: InvokeMethod_def echoBackend_def helloMethod_def Let_def)

lemma eval_invoke_object:
  "InvokeMethod echoBackend [] helloMethod ''{x}''
     = (Inr ''{x}'', [RPC [] ''/hello.HelloService/SayHello'' ''{x}''])"
  by (simp add: InvokeMethod_def echoBackend_def helloMethod_def Let_def)

text \<open>
  What \<open>InvokeMethod\<close> hands to the channel. When the full name is \<open>service\<close>, a
  dot and a rest without a dot, and the input message is built, the outcome is the
  channel's answer to one \<open>Invoke\<close> with the caller's headers, the path
  \<open>"/" + service + "/" + Name\<close>, the input message and the empty output message.
\<close>

lemma InvokeMethod_backend_call:
  assumes "FullName method = service @ ''.'' @ rest" and "CHR ''.'' \<notin> set rest"
    and "inputMessage be method inputJSON = Inr inputMsg"
  shows "InvokeMethod be headers method inputJSON =
     (case conn_Invoke be headers (''/'' @ service @ ''/'' @ Name method) inputMsg
             (dynamicpb_NewMessage be (OutputDescriptor method)) of
        Inl e \<Rightarrow>
          (Inl (GrpcCallFailed e), [RPC headers (''/'' @ service @ ''/'' @ Name method) inputMsg])
      | Inr out \<Rightarrow>
          (case protojson_Marshal be out of
             Inl e \<Rightarrow>
               (Inl (FailedToMarshalOutput e),
                [RPC headers (''/'' @ service @ ''/'' @ Name method) inputMsg])
           | Inr outputJSON \<Rightarrow>
               (Inr outputJSON, [RPC headers (''/'' @ service @ ''/'' @ Name method) inputMsg])))"
proof -
  from assms(1,2) have i: "LastIndex (FullName method) (CHR ''.'') = int (length service)"
    using LastIndex_last_dot[of "CHR ''.''" rest service] by simp
  from assms(1) have t: "take (length service) (FullName method) = service" by simp
  from assms(3) i t show ?thesis
    by (auto simp: InvokeMethod_def inputMessage_def Let_def split: sum.splits if_splits)
qed

text \<open>The channel is asked at no other path: its answers elsewhere do not matter.\<close>

lemma InvokeMethod_only_that_path:
  assumes "FullName method = service @ ''.'' @ rest" and "CHR ''.'' \<notin> set rest"
    and "\<forall>md inputMsg outputMsg.
           invoke' md (''/'' @ service @ ''/'' @ Name method) inputMsg outputMsg
             = conn_Invoke be md (''/'' @ service @ ''/'' @ Name method) inputMsg outputMsg"
  shows "InvokeMethod (be\<lparr>conn_Invoke := invoke'\<rparr>) headers method inputJSON
           = InvokeMethod be headers method inputJSON"
proof (cases "inputMessage be method inputJSON")
  case (Inl e)
  then show ?thesis
    by (auto simp: InvokeMethod_def inputMessage_def Let_def split: sum.splits if_splits)
next
  case (Inr inputMsg)
  then have "inputMessage (be\<lparr>conn_Invoke := invoke'\<rparr>) method inputJSON = Inr inputMsg"
    by (auto simp: inputMessage_def split: if_splits)
  from InvokeMethod_backend_call[OF assms(1,2) this, of headers]
       InvokeMethod_backend_call[OF assms(1,2) Inr, of headers] assms(3)
  show ?thesis by (simp split: sum.splits)
qed

text \<open>A full name without a dot: the channel is not asked at all.\<close>

lemma InvokeMethod_no_dot_no_call:
  "CHR ''.'' \<notin> set (FullName method) \<Longrightarrow>
   InvokeMethod (be\<lparr>conn_Invoke := invoke'\<rparr>) headers method inputJSON
     = InvokeMethod be headers method inputJSON \<and>
   snd (InvokeMethod be headers method inputJSON) = []"
  using LastIndex_neg_iff[of "FullName method" "CHR ''.''"]
  by (auto simp: InvokeMethod_def Let_def split: sum.splits if_splits)

lemma InvokeMethod_recorded_path:
  assumes "c \<in> set (snd (InvokeMethod be headers method inputJSON))"
  shows "\<exists>service rest.
        FullName method = service @ ''.'' @ rest \<and> CHR ''.'' \<notin> set rest \<and>
        rpc_method c = ''/'' @ service @ ''/'' @ Name method"
proof -
  from InvokeMethod_calls[OF assms]
  have i: "0 \<le> LastIndex (FullName method) (CHR ''.'')"
    and p: "rpc_method c
              = ''/'' @ take (nat (LastIndex (FullName method) (CHR ''.''))) (FullName method)
                  @ ''/'' @ Name method"
    by simp_all
  from LastIndex_split[OF i] obtain rest where
    "FullName method
       = take (nat (LastIndex (FullName method) (CHR ''.''))) (FullName method) @ CHR ''.'' # rest"
    "CHR ''.'' \<notin> set rest"
    by blast
  with p show ?thesis by (metis append_Cons append_Nil)
qed

text \<open>
  C7. When the method's full name is \<open>service\<close>, a dot and a rest without a dot (the
  full name cut at its last dot is \<open>service\<close>), an invocation whose input message is
  built returns what the backend answers to \<open>Invoke\<close> at the path
  \<open>"/" + service + "/" + Name\<close> with the caller's headers and that input message, and
  the backend is asked at no other path: changing its answers at every other path changes
  nothing. A full name without a dot reaches no call, whatever the backend. Every call
  recorded by an invocation names the path of that form.
\<close>

theorem C7_method_path:
  "(FullName method = service @ ''.'' @ rest \<and> CHR ''.'' \<notin> set rest \<longrightarrow>
      (inputMessage be method inputJSON = Inr inputMsg \<longrightarrow>
         InvokeMethod be headers method inputJSON =
           (case conn_Invoke be headers (''/'' @ service @ ''/'' @ Name method) inputMsg
                   (dynamicpb_NewMessage be (OutputDescriptor method)) of
              Inl e \<Rightarrow>
                (Inl (GrpcCallFailed e),
                 [RPC headers (''/'' @ service @ ''/'' @ Name method) inputMsg])
            | Inr out \<Rightarrow>
                (case protojson_Marshal be out of
                   Inl e \<Rightarrow>
                     (Inl (FailedToMarshalOutput e),
                      [RPC headers (''/'' @ service @ ''/'' @ Name method) inputMsg])
                 | Inr outputJSON \<Rightarrow>
                     (Inr outputJSON,
                      [RPC headers (''/'' @ service @ ''/'' @ Name method) inputMsg])))) \<and>
      ((\<forall>md i out. invoke' md (''/'' @ service @ ''/'' @ Name method) i out
                     = conn_Invoke be md (''/'' @ service @ ''/'' @ Name method) i out) \<longrightarrow>
         InvokeMethod (be\<lparr>conn_Invoke := invoke'\<rparr>) headers method inputJSON
           = InvokeMethod be headers method inputJSON)) \<and>
   (CHR ''.'' \<notin> set (FullName method) \<longrightarrow>
      InvokeMethod (be\<lparr>conn_Invoke := invoke'\<rparr>) headers method inputJSON
        = InvokeMethod be headers method inputJSON \<and>
      snd (InvokeMethod be headers method inputJSON) = []) \<and>
   (\<forall>c \<in> set (snd (InvokeMethod be headers method inputJSON)).
     \<exists>service rest.
        FullName method = service @ ''.'' @ rest \<and> CHR ''.'' \<notin> set rest \<and>
        rpc_method c = ''/'' @ service @ ''/'' @ Name method)"
proof (intro conjI impI ballI)
  assume a: "FullName method = service @ ''.'' @ rest \<and> CHR ''.'' \<notin> set rest"
    and m: "inputMessage be method inputJSON = Inr inputMsg"
  from a have "FullName method = service @ ''.'' @ rest" "CHR ''.'' \<notin> set rest" by blast+
  from InvokeMethod_backend_call[OF this m]
  show "InvokeMethod be headers method inputJSON =
           (case conn_Invoke be headers (''/'' @ service @ ''/'' @ Name method) inputMsg
                   (dynamicpb_NewMessage be (OutputDescriptor method)) of
              Inl e \<Rightarrow>
                (Inl (GrpcCallFailed e),
                 [RPC headers (''/'' @ service @ ''/'' @ Name method) inputMsg])
            | Inr out \<Rightarrow>
                (case protojson_Marshal be out of
                   Inl e \<Rightarrow>
                     (Inl (FailedToMarshalOutput e),
                      [RPC headers (''/'' @ service @ ''/'' @ Name method) inputMsg])
                 | Inr outputJSON \<Rightarrow>
                     (Inr outputJSON,
                      [RPC headers (''/'' @ service @ ''/'' @ Name method) inputMsg])))" .
next
  assume a: "FullName method = service @ ''.'' @ rest \<and> CHR ''.'' \<notin> set rest"
    and f: "\<forall>md i out. invoke' md (''/'' @ service @ ''/'' @ Name method) i out
                     = conn_Invoke be md (''/'' @ service @ ''/'' @ Name method) i out"
  from a have n: "FullName method = service @ ''.'' @ rest" and r: "CHR ''.'' \<notin> set rest"
    by blast+
  from f InvokeMethod_only_that_path[of "method" service rest invoke' be, OF n r]
  show "InvokeMethod (be\<lparr>conn_Invoke := invoke'\<rparr>) headers method inputJSON
           = InvokeMethod be headers method inputJSON" by blast
next
  assume "CHR ''.'' \<notin> set (FullName method)"
  from InvokeMethod_no_dot_no_call[OF this]
  show "InvokeMethod (be\<lparr>conn_Invoke := invoke'\<rparr>) headers method inputJSON
        = InvokeMethod be headers method inputJSON" by blast
next
  assume "CHR ''.'' \<notin> set (FullName method)"
  from InvokeMethod_no_dot_no_call[OF this]
  show "snd (InvokeMethod be headers method inputJSON) = []" by blast
next
  fix c assume "c \<in> set (snd (InvokeMethod be headers method inputJSON))"
  then show "\<exists>service rest.
        FullName method = service @ ''.'' @ rest \<and> CHR ''.'' \<notin> set rest \<and>
        rpc_method c = ''/'' @ service @ ''/'' @ Name method"
    by (rule InvokeMethod_recorded_path)
qed

lemma eval_route_answers:
  "conn_Invoke routingBackend [(''x-trace-id'', ''abc'')] ''/hello.HelloService/SayHello''
      ''{}'' ''{}'' = Inr ''{}''"
  "conn_Invoke routingBackend [(''x-trace-id'', ''abc'')] ''/hello.HelloService.SayHello''
      ''{}'' ''{}'' = Inl (External ''unimplemented'')"
  "conn_Invoke routingBackend [] ''/hello.HelloService/SayHello''
      ''{}'' ''{}'' = Inl (External ''no trace id'')"
  by code_simp+

lemma eval_bare_method:
  "InvokeMethod routingBackend [(''x-trace-id'', ''abc'')] bareMethod ''{}''
     = (Inl PanicSliceBounds, [])"
  by code_simp

text \<open>
  C7 at \<open>hello.HelloService.SayHello\<close>, on a backend that serves only the path
  \<open>/hello.HelloService/SayHello\<close> and only with the trace header: the invocation
  succeeds, so the backend was asked at that path with the caller's headers (it refuses
  the untruncated name and a call without headers); a second service on the other paths
  changes nothing; a full name without a dot reaches no call.
\<close>

theorem C7_method_path_witness:
  "FullName helloMethod = ''hello.HelloService'' @ ''.'' @ ''SayHello'' \<and>
   CHR ''.'' \<notin> set ''SayHello'' \<and>
   inputMessage routingBackend helloMethod ''{}'' = Inr ''{}'' \<and>
   InvokeMethod routingBackend [(''x-trace-id'', ''abc'')] helloMethod ''{}''
     = (Inr ''{}'', [RPC [(''x-trace-id'', ''abc'')] ''/hello.HelloService/SayHello'' ''{}'']) \<and>
   conn_Invoke routingBackend [(''x-trace-id'', ''abc'')] ''/hello.HelloService.SayHello''
      ''{}'' ''{}'' = Inl (External ''unimplemented'') \<and>
   conn_Invoke routingBackend [] ''/hello.HelloService/SayHello''
      ''{}'' ''{}'' = Inl (External ''no trace id'') \<and>
   InvokeMethod (routingBackend\<lparr>conn_Invoke := sharedInvoke\<rparr>) [(''x-trace-id'', ''abc'')]
       helloMethod ''{}''
     = InvokeMethod routingBackend [(''x-trace-id'', ''abc'')] helloMethod ''{}'' \<and>
   CHR ''.'' \<notin> set (FullName bareMethod) \<and>
   InvokeMethod routingBackend [(''x-trace-id'', ''abc'')] bareMethod ''{}''
     = (Inl PanicSliceBounds, [])"
proof -
  let ?h = "[(''x-trace-id'', ''abc'')]"
  have n: "FullName helloMethod = ''hello.HelloService'' @ ''.'' @ ''SayHello''"
          "Name helloMethod = ''SayHello''"
    by (simp_all add: helloMethod_def)
  have r: "CHR ''.'' \<notin> set ''SayHello''" by simp
  have m: "inputMessage routingBackend helloMethod ''{}'' = Inr ''{}''" by code_simp
  have o: "dynamicpb_NewMessage routingBackend (OutputDescriptor helloMethod) = ''{}''"
          "protojson_Marshal routingBackend ''{}'' = Inr ''{}''"
    by (simp_all add: routingBackend_def)
  have s: "\<forall>md i out. sharedInvoke md (''/'' @ ''hello.HelloService'' @ ''/'' @ Name helloMethod) i out
             = conn_Invoke routingBackend md
                 (''/'' @ ''hello.HelloService'' @ ''/'' @ Name helloMethod) i out"
    by (simp add: sharedInvoke_def n(2))
  note c = C7_method_path [of helloMethod "''hello.HelloService''" "''SayHello''" routingBackend
      "''{}''" "''{}''" ?h sharedInvoke]
  have a: "InvokeMethod routingBackend ?h helloMethod ''{}''
     = (Inr ''{}'', [RPC ?h ''/hello.HelloService/SayHello'' ''{}''])"
    using c n r m o eval_route_answers(1) by simp
  have b: "InvokeMethod (routingBackend\<lparr>conn_Invoke := sharedInvoke\<rparr>) ?h helloMethod ''{}''
     = InvokeMethod routingBackend ?h helloMethod ''{}''"
    using c n(1) r s by blast
  have d: "CHR ''.'' \<notin> set (FullName bareMethod)" by code_simp
  have e: "snd (InvokeMethod routingBackend ?h bareMethod ''{}'') = []"
    using C7_method_path [of bareMethod "''x''" "''y''" routingBackend "''{}''" "''{}''" ?h
            sharedInvoke] d
    by blast
  from n(1) r m a eval_route_answers(2,3) b d eval_bare_method show ?thesis by blast
qed

text \<open>
  C8. When the input JSON is empty or the literal \<open>{}\<close>, the parser is not consulted
  (the outcome is the same with any other parser) and the message sent is the empty
  message of the input descriptor. Otherwise the input is parsed: a parse failure is the
  invocation's error, with no call on the channel, and a parsed message is the one sent.
\<close>

theorem C8_input_json:
  "((inputJSON = [] \<or> inputJSON = ''{}'') \<longrightarrow>
      InvokeMethod be headers method inputJSON
        = InvokeMethod (be\<lparr>protojson_Unmarshal := parse'\<rparr>) headers method inputJSON \<and>
      (\<forall>c \<in> set (snd (InvokeMethod be headers method inputJSON)).
         rpc_input c = dynamicpb_NewMessage be (InputDescriptor method))) \<and>
   (inputJSON \<noteq> [] \<and> inputJSON \<noteq> ''{}'' \<longrightarrow>
      (case protojson_Unmarshal be inputJSON (dynamicpb_NewMessage be (InputDescriptor method)) of
         Inl e \<Rightarrow> InvokeMethod be headers method inputJSON = (Inl (FailedToParseInputJSON e), [])
       | Inr inputMsg \<Rightarrow>
           (\<forall>c \<in> set (snd (InvokeMethod be headers method inputJSON)). rpc_input c = inputMsg)))"
  by (auto simp: InvokeMethod_def Let_def split: sum.splits if_splits)

text \<open>
  C8 at the echo backend: \<open>{}\<close> is sent as the empty message whatever the parser, a
  text that is no JSON object fails without a call, and an object is parsed and sent.
\<close>

theorem C8_input_json_witness:
  "InvokeMethod echoBackend [] helloMethod ''{}''
     = InvokeMethod (echoBackend\<lparr>protojson_Unmarshal := (\<lambda>j m. Inl (External ''never''))\<rparr>)
         [] helloMethod ''{}'' \<and>
   snd (InvokeMethod echoBackend [] helloMethod ''{}'')
     = [RPC [] ''/hello.HelloService/SayHello''
          (dynamicpb_NewMessage echoBackend ''hello.HelloRequest'')] \<and>
   InvokeMethod echoBackend [] helloMethod ''nope''
     = (Inl (FailedToParseInputJSON (External ''syntax error'')), []) \<and>
   map rpc_input (snd (InvokeMethod echoBackend [] helloMethod ''{x}'')) = [''{x}'']"
proof -
  have a: "InvokeMethod echoBackend [] helloMethod ''{}''
     = InvokeMethod (echoBackend\<lparr>protojson_Unmarshal := (\<lambda>j m. Inl (External ''never''))\<rparr>)
         [] helloMethod ''{}''"
    using C8_input_json [of "''{}''" echoBackend "[]" helloMethod "\<lambda>j m. Inl (External ''never'')"]
    by simp
  have n: "dynamicpb_NewMessage echoBackend ''hello.HelloRequest'' = ''{}''"
    by (simp add: echoBackend_def)
  have b: "snd (InvokeMethod echoBackend [] helloMethod ''{}'')
     = [RPC [] ''/hello.HelloService/SayHello''
          (dynamicpb_NewMessage echoBackend ''hello.HelloRequest'')]"
    by (simp only: eval_invoke_hello n snd_conv)
  have u1: "protojson_Unmarshal echoBackend ''nope''
              (dynamicpb_NewMessage echoBackend (InputDescriptor helloMethod))
              = Inl (External ''syntax error'')"
    by (simp add: echoBackend_def)
  have c: "InvokeMethod echoBackend [] helloMethod ''nope''
     = (Inl (FailedToParseInputJSON (External ''syntax error'')), [])"
    using C8_input_json [of "''nope''" echoBackend "[]" helloMethod "\<lambda>j m. Inl (External ''never'')"]
    by (simp add: u1)
  have u2: "protojson_Unmarshal echoBackend ''{x}''
              (dynamicpb_NewMessage echoBackend (InputDescriptor helloMethod))
              = Inr ''{x}''"
    by (simp add: echoBackend_def)
  have d: "map rpc_input (snd (InvokeMethod echoBackend [] helloMethod ''{x}'')) = [''{x}'']"
    using C8_input_json [of "''{x}''" echoBackend "[]" helloMethod "\<lambda>j m. Inl (External ''never'')"]
    by (simp add: u2 eval_invoke_object)
  from a b c d show ?thesis by blast
qed

lemma eval_lookup_watch:
  "getMethodByTool readyDiscoverer ''hello_helloservice_watch'' = Some watchMethod"
  by (simp add: getMethodByTool_def readyDiscoverer_def toolsOf_def helloMethod_def watchMethod_def)

text \<open>
  C6. A tool call on a tool whose method is client-streaming or server-streaming returns
  the streaming error and puts no call on the channel, whatever the backend, the input
  and the connection.
\<close>

theorem C6_streaming_rejected:
  "getMethodByTool d toolName = Some method \<Longrightarrow>
   IsClientStreaming method \<or> IsServerStreaming method \<Longrightarrow>
   InvokeMethodByTool be d headers toolName inputJSON = (Inl StreamingNotSupported, [])"
  by (simp add: InvokeMethodByTool_def)

text \<open>C6 at a catalog that holds the server-streaming method \<open>Watch\<close>.\<close>

theorem C6_streaming_rejected_witness:
  "getMethodByTool readyDiscoverer ''hello_helloservice_watch'' = Some watchMethod \<and>
   IsServerStreaming watchMethod \<and>
   InvokeMethodByTool echoBackend readyDiscoverer [] ''hello_helloservice_watch'' ''{}''
     = (Inl StreamingNotSupported, [])"
  using C6_streaming_rejected [of readyDiscoverer "''hello_helloservice_watch''" watchMethod
          echoBackend "[]" "''{}''"] eval_lookup_watch
  by (simp add: watchMethod_def)


section \<open>Discovery: the method records of a catalog\<close>

lemma underscore_in_tool_name:
  assumes "CHR ''.'' \<in> set s"
  shows "CHR ''_'' \<in> set (ReplaceAll (ToLower s) (CHR ''.'') (CHR ''_''))"
proof -
  have "toLowerByte (CHR ''.'') = CHR ''.''" by (simp add: toLowerByte_def)
  with assms have "CHR ''.'' \<in> set (ToLower s)" by (force simp: ToLower_def)
  then show ?thesis by (force simp: ReplaceAll_def)
qed

lemma loaderMethodInfo_props:
  "m = loaderMethodInfo fullName serviceName serviceDescription methodDesc \<Longrightarrow>
   FullName m = fullName @ ''.'' @ md_name methodDesc \<and> Name m = md_name methodDesc \<and>
   ServiceName m = serviceName \<and>
   ToolName m = ReplaceAll (ToLower (FullName m)) (CHR ''.'') (CHR ''_'')"
  by (simp add: loaderMethodInfo_def Let_def GenerateToolName_def)

lemma ExtractMethodInfo_mem:
  "m \<in> set (ExtractMethodInfo files) \<Longrightarrow>
   \<exists>fd \<in> set files. \<exists>service \<in> set (fd_service fd). \<exists>methodDesc \<in> set (sd_method service).
     m = loaderMethodInfo (fullServiceName fd service)
           (extractServiceNameForCompatibility (fullServiceName fd service))
           (extractComments (sd_loc service)) methodDesc"
  by (auto simp: ExtractMethodInfo_def loaderServiceMethods_def Let_def)

lemma ExtractMethodInfo_props:
  assumes "m \<in> set (ExtractMethodInfo files)"
  shows "ToolName m = ReplaceAll (ToLower (FullName m)) (CHR ''.'') (CHR ''_'') \<and>
         CHR ''.'' \<in> set (FullName m)"
proof -
  from ExtractMethodInfo_mem[OF assms] obtain fullName serviceName serviceDescription methodDesc
    where "m = loaderMethodInfo fullName serviceName serviceDescription methodDesc" by blast
  from loaderMethodInfo_props[OF this] show ?thesis by simp
qed

lemma createMethodInfo_props:
  "createMethodInfoWithServiceContext srv serviceName method fd = Inr m \<Longrightarrow>
   FullName m = serviceName @ ''.'' @ md_name method \<and> Name m = md_name method \<and>
   ServiceName m = serviceName \<and>
   ToolName m = ReplaceAll (ToLower (FullName m)) (CHR ''.'') (CHR ''_'')"
  by (auto simp: createMethodInfoWithServiceContext_def Let_def GenerateToolName_def
           split: sum.splits)

lemma serviceMethods_props:
  "m \<in> set (serviceMethods srv serviceName fd methods) \<Longrightarrow>
   FullName m = serviceName @ ''.'' @ Name m \<and> ServiceName m = serviceName \<and>
   ToolName m = ReplaceAll (ToLower (FullName m)) (CHR ''.'') (CHR ''_'')"
  by (induction methods) (auto split: sum.splits dest: createMethodInfo_props)

lemma extractMethodsFromFileDescriptor_props:
  "m \<in> set (extractMethodsFromFileDescriptor srv fd targetServices) \<Longrightarrow>
   ServiceName m \<in> set targetServices \<and>
   FullName m = ServiceName m @ ''.'' @ Name m \<and>
   ToolName m = ReplaceAll (ToLower (FullName m)) (CHR ''.'') (CHR ''_'')"
  by (auto simp: extractMethodsFromFileDescriptor_def split: if_splits dest: serviceMethods_props)

lemma DiscoverMethods_props:
  "DiscoverMethods order srv r = (Inr methods, r', q) \<Longrightarrow> m \<in> set methods \<Longrightarrow>
   \<not> isInternal (ServiceName m) \<and>
   (\<exists>names. rs_ListServices srv = Inr names \<and> ServiceName m \<in> set names) \<and>
   FullName m = ServiceName m @ ''.'' @ Name m \<and>
   ToolName m = ReplaceAll (ToLower (FullName m)) (CHR ''.'') (CHR ''_'')"
  by (auto simp: DiscoverMethods_def listServices_def Let_def filterInternalServices_def
           split: sum.splits prod.splits dest!: extractMethodsFromFileDescriptor_props)

lemma values_update_subset:
  "snd ` set (AList.update k v al) \<subseteq> insert v (snd ` set al)"
  by (induction al) auto

lemma toolsOf_acc_subset:
  "snd ` set (fold (\<lambda>method tools. AList.update (ToolName method) method tools) methods acc)
     \<subseteq> set methods \<union> snd ` set acc"
proof (induction methods arbitrary: acc)
  case Nil
  then show ?case by simp
next
  case (Cons a methods)
  from Cons.IH[of "AList.update (ToolName a) a acc"] values_update_subset[of "ToolName a" a acc]
  show ?case by auto
qed

lemma toolsOf_mem: "(k, m) \<in> set (toolsOf methods) \<Longrightarrow> m \<in> set methods"
  using toolsOf_acc_subset[of methods "[]"] by (force simp: toolsOf_def)

text \<open>
  A round of \<open>DiscoverServices\<close> that succeeds publishes either the offline list (which
  is then non-empty, and no reflection request was sent) or the list of the reflection
  client.
\<close>

lemma DiscoverServices_published:
  "DiscoverServices order env srv d = (None, d', q) \<Longrightarrow>
   (d_descriptorEnabled d \<and> d_descriptorPath d \<noteq> [] \<and>
      (\<exists>ms. discoverFromFileDescriptor env d = Inr ms \<and> ms \<noteq> [] \<and>
            d_tools d' = toolsOf ms \<and> q = [])) \<or>
   (\<exists>r ms r'. d_reflectionClient d = Some r \<and>
        DiscoverMethods order srv r = (Inr ms, r', q) \<and> d_tools d' = toolsOf ms)"
  by (auto simp: DiscoverServices_def Let_def discoverFromReflection_def
           split: option.splits sum.splits prod.splits if_splits)

lemma fetchFiles_requests:
  "\<exists>rest. snd (snd (fetchFiles srv names r0 m0 q0)) = q0 @ rest"
proof (induction names arbitrary: r0 m0 q0)
  case Nil
  then show ?case by simp
next
  case (Cons n names)
  obtain x r1 q1 where g: "getFileDescriptorBySymbol srv r0 n = (x, r1, q1)"
    by (metis prod_cases3)
  show ?case
  proof (cases x)
    case (Inl err)
    with g Cons.IH[of r1 m0 "q0 @ q1"] show ?thesis by auto
  next
    case (Inr fileDescriptor)
    with g Cons.IH[of r1 _ "q0 @ q1"] show ?thesis by (auto simp: Let_def)
  qed
qed

lemma DiscoverMethods_requests:
  "\<exists>rest. snd (snd (DiscoverMethods order srv r)) = ReqListServices # rest"
proof (cases "rs_ListServices srv")
  case (Inl e)
  then show ?thesis by (simp add: DiscoverMethods_def listServices_def)
next
  case (Inr names)
  from fetchFiles_requests[of srv "filterInternalServices names" r "[]" "[ReqListServices]"]
  obtain rest where
    "snd (snd (fetchFiles srv (filterInternalServices names) r [] [ReqListServices]))
       = ReqListServices # rest"
    by auto
  with Inr show ?thesis
    by (auto simp: DiscoverMethods_def listServices_def Let_def split: prod.splits)
qed

text \<open>A round sends no reflection request, or it starts with \<open>ListServices\<close>.\<close>

lemma DiscoverServices_requests:
  "DiscoverServices order env srv d = (e, d', q) \<Longrightarrow>
   q = [] \<or> (\<exists>rest. q = ReqListServices # rest)"
proof -
  assume a: "DiscoverServices order env srv d = (e, d', q)"
  show ?thesis
  proof (cases "d_reflectionClient d")
    case None
    with a show ?thesis by (simp add: DiscoverServices_def)
  next
    case (Some r)
    from DiscoverMethods_requests[of order srv r] obtain rest where
      "snd (snd (DiscoverMethods order srv r)) = ReqListServices # rest" by blast
    with a Some show ?thesis
      by (auto simp: DiscoverServices_def Let_def discoverFromReflection_def
               split: sum.splits prod.splits if_splits)
  qed
qed

lemma catalog_method_props:
  assumes "DiscoverServices order env srv d = (None, d', q)" and "m \<in> set (GetMethods d')"
  shows "ToolName m = ReplaceAll (ToLower (FullName m)) (CHR ''.'') (CHR ''_'') \<and>
         CHR ''.'' \<in> set (FullName m)"
proof -
  from assms(2) obtain k where km: "(k, m) \<in> set (d_tools d')"
    by (auto simp: GetMethods_def)
  from DiscoverServices_published[OF assms(1)]
  show ?thesis
  proof
    assume "d_descriptorEnabled d \<and> d_descriptorPath d \<noteq> [] \<and>
      (\<exists>ms. discoverFromFileDescriptor env d = Inr ms \<and> ms \<noteq> [] \<and>
            d_tools d' = toolsOf ms \<and> q = [])"
    then obtain ms where ms: "discoverFromFileDescriptor env d = Inr ms" "d_tools d' = toolsOf ms"
      by blast
    with km have "m \<in> set ms" by (auto dest: toolsOf_mem)
    with ms(1) obtain files where "m \<in> set (ExtractMethodInfo files)"
      by (auto simp: discoverFromFileDescriptor_def split: sum.splits)
    from ExtractMethodInfo_props[OF this] show ?thesis .
  next
    assume "\<exists>r ms r'. d_reflectionClient d = Some r \<and>
        DiscoverMethods order srv r = (Inr ms, r', q) \<and> d_tools d' = toolsOf ms"
    then obtain r ms r' where
      ms: "DiscoverMethods order srv r = (Inr ms, r', q)" "d_tools d' = toolsOf ms"
      by blast
    with km have "m \<in> set ms" by (auto dest: toolsOf_mem)
    from DiscoverMethods_props[OF ms(1) this] show ?thesis by auto
  qed
qed


section \<open>Discovery: evaluation on the examples\<close>

lemma eval_reflection_round_error:
  "fst (DiscoverServices id (descriptorFilesOf []) helloServer reflectionDiscoverer) = None"
  by code_simp

lemma eval_reflection_round_catalog:
  "d_tools (fst (snd (DiscoverServices id (descriptorFilesOf []) helloServer reflectionDiscoverer)))
     = [(''hello_helloservice_sayhello'', helloMethod)]"
  by code_simp

lemma eval_reflection_round_requests:
  "snd (snd (DiscoverServices id (descriptorFilesOf []) helloServer reflectionDiscoverer))
     = [ReqListServices, ReqFileContainingSymbol ''hello.HelloService'']"
  by code_simp

lemma eval_reflection_round:
  "DiscoverServices id (descriptorFilesOf []) helloServer reflectionDiscoverer
     = (None,
        fst (snd (DiscoverServices id (descriptorFilesOf []) helloServer reflectionDiscoverer)),
        [ReqListServices, ReqFileContainingSymbol ''hello.HelloService''])"
  using eval_reflection_round_error eval_reflection_round_requests
  by (metis prod.collapse)

lemma eval_reflection_round_methods:
  "GetMethods (fst (snd (DiscoverServices id (descriptorFilesOf []) helloServer
                           reflectionDiscoverer)))
     = [helloMethod]"
  by (simp add: GetMethods_def eval_reflection_round_catalog)

lemma eval_build_hello:
  "BuildTool [] helloMethod
     = Some (Inr \<lparr> tool_Name = ''hello_helloservice_sayhello'',
          tool_Description = ''Calls the SayHello method of the hello.HelloService service'',
          tool_InputSchema = Some [(''type'', JString ''object''), (''properties'', JObject [])],
          tool_OutputSchema = Some [(''type'', JString ''object''), (''properties'', JObject [])] \<rparr>)"
  by code_simp

lemma eval_discover_down:
  "DiscoverServices id (descriptorFilesOf []) downServer readyDiscoverer
     = (Some (FailedToDiscoverViaReflection (FailedToListServices (External ''unavailable''))),
        readyDiscoverer, [ReqListServices])"
  by (simp add: DiscoverServices_def discoverFromReflection_def DiscoverMethods_def listServices_def
        downServer_def readyDiscoverer_def reflectionDiscoverer_def Let_def)

section \<open>Tool identifiers\<close>

lemma validateTool_rejects:
  "\<not> Contains (tool_Name tool) (CHR ''_'') \<Longrightarrow> validateTool tool \<noteq> None"
  by (simp add: validateTool_def)

lemma BuildTool_name:
  "BuildTool reg method = Some (Inr tool) \<Longrightarrow>
   tool_Name tool = GenerateToolName method \<and> Contains (tool_Name tool) (CHR ''_'')"
  by (auto simp: BuildTool_def Let_def validateTool_def
           split: option.splits sum.splits if_splits)

text \<open>
  C1. After a round of discovery that succeeds, every method record of the catalog has
  as its tool identifier its full name lowercased with every dot replaced by an
  underscore, and the identifier contains an underscore. \<open>validateTool\<close> rejects a tool
  whose name has no underscore, and a tool that \<open>BuildTool\<close> returns is named by the
  derived identifier, which contains an underscore.
\<close>

theorem C1_tool_identifier:
  "(DiscoverServices order env srv d = (None, d', q) \<longrightarrow>
      (\<forall>m \<in> set (GetMethods d').
         ToolName m = GenerateToolName m \<and>
         GenerateToolName m = ReplaceAll (ToLower (FullName m)) (CHR ''.'') (CHR ''_'') \<and>
         Contains (ToolName m) (CHR ''_''))) \<and>
   (\<not> Contains (tool_Name tool) (CHR ''_'') \<longrightarrow> validateTool tool \<noteq> None) \<and>
   (BuildTool reg method = Some (Inr built) \<longrightarrow>
      tool_Name built = GenerateToolName method \<and> Contains (tool_Name built) (CHR ''_''))"
proof (intro conjI impI ballI)
  fix m assume a: "DiscoverServices order env srv d = (None, d', q)" "m \<in> set (GetMethods d')"
  from catalog_method_props[OF a]
  have t: "ToolName m = ReplaceAll (ToLower (FullName m)) (CHR ''.'') (CHR ''_'')"
    and dot: "CHR ''.'' \<in> set (FullName m)" by simp_all
  show "ToolName m = GenerateToolName m" using t by (simp add: GenerateToolName_def)
  show "GenerateToolName m = ReplaceAll (ToLower (FullName m)) (CHR ''.'') (CHR ''_'')"
    by (simp add: GenerateToolName_def)
  show "Contains (ToolName m) (CHR ''_'')"
    using t underscore_in_tool_name[OF dot] by (simp add: Contains_def)
next
  assume "\<not> Contains (tool_Name tool) (CHR ''_'')"
  then show "validateTool tool \<noteq> None" by (rule validateTool_rejects)
next
  assume "BuildTool reg method = Some (Inr built)"
  from BuildTool_name[OF this] show "tool_Name built = GenerateToolName method" by simp
next
  assume "BuildTool reg method = Some (Inr built)"
  from BuildTool_name[OF this] show "Contains (tool_Name built) (CHR ''_'')" by blast
qed

text \<open>
  C1 at the example of the spec: \<open>hello.HelloService.SayHello\<close> is published under
  \<open>hello_helloservice_sayhello\<close>, a tool named \<open>sayhello\<close> is rejected, and the tool
  built for the method carries the identifier.
\<close>

theorem C1_tool_identifier_witness:
  "fst (DiscoverServices id (descriptorFilesOf []) helloServer reflectionDiscoverer) = None \<and>
   GetMethods (fst (snd (DiscoverServices id (descriptorFilesOf []) helloServer reflectionDiscoverer)))
     = [helloMethod] \<and>
   ToolName helloMethod = ''hello_helloservice_sayhello'' \<and>
   GenerateToolName helloMethod = ''hello_helloservice_sayhello'' \<and>
   Contains (ToolName helloMethod) (CHR ''_'') \<and>
   \<not> Contains (tool_Name plainTool) (CHR ''_'') \<and>
   validateTool plainTool = Some ToolNameNoUnderscore \<and>
   map_option (map_sum id tool_Name) (BuildTool [] helloMethod)
     = Some (Inr ''hello_helloservice_sayhello'')"
proof -
  let ?X = "DiscoverServices id (descriptorFilesOf []) helloServer reflectionDiscoverer"
  have x: "?X = (None, fst (snd ?X), snd (snd ?X))"
    using eval_reflection_round_error by (metis prod.collapse)
  note g = eval_reflection_round_methods
  have t: "ToolName helloMethod = ''hello_helloservice_sayhello''" by (simp add: helloMethod_def)
  have p: "\<not> Contains (tool_Name plainTool) (CHR ''_'')" by code_simp
  have v: "validateTool plainTool = Some ToolNameNoUnderscore" by code_simp
  have c: "ToolName helloMethod = GenerateToolName helloMethod \<and>
        Contains (ToolName helloMethod) (CHR ''_'') \<and> validateTool plainTool \<noteq> None"
    using C1_tool_identifier [of id "descriptorFilesOf []" helloServer reflectionDiscoverer
         "fst (snd ?X)" "snd (snd ?X)" plainTool "[]" helloMethod
         "projr (the (BuildTool [] helloMethod))"] x g p
    by auto
  have n: "map_option (map_sum id tool_Name) (BuildTool [] helloMethod)
     = Some (Inr ''hello_helloservice_sayhello'')"
    by (simp add: eval_build_hello)
  from c have k: "Contains (ToolName helloMethod) (CHR ''_'')" by blast
  from c t have gt: "GenerateToolName helloMethod = ''hello_helloservice_sayhello''" by metis
  from eval_reflection_round_error g t gt k p v n show ?thesis by blast
qed

section \<open>Discovery: failure, fallback and filtering\<close>

text \<open>
  C10. When \<open>DiscoverServices\<close> returns an error, the published catalog is the one
  from before the call: the tools, the method list and every lookup by tool name.
\<close>

theorem C10_failure_keeps_catalog:
  "DiscoverServices order env srv d = (Some e, d', q) \<Longrightarrow>
   d_tools d' = d_tools d \<and> GetMethods d' = GetMethods d \<and>
   (\<forall>toolName. getMethodByTool d' toolName = getMethodByTool d toolName)"
  by (auto simp: DiscoverServices_def Let_def GetMethods_def getMethodByTool_def
           split: option.splits sum.splits prod.splits if_splits)

text \<open>
  C10 at a discoverer with two published tools whose backend stops answering: the round
  fails and the two tools stay published.
\<close>

theorem C10_failure_keeps_catalog_witness:
  "fst (DiscoverServices id (descriptorFilesOf []) downServer readyDiscoverer)
     = Some (FailedToDiscoverViaReflection (FailedToListServices (External ''unavailable''))) \<and>
   d_tools (fst (snd (DiscoverServices id (descriptorFilesOf []) downServer readyDiscoverer)))
     = d_tools readyDiscoverer \<and>
   map ToolName (GetMethods readyDiscoverer)
     = [''hello_helloservice_sayhello'', ''hello_helloservice_watch'']"
proof -
  have m: "map ToolName (GetMethods readyDiscoverer)
     = [''hello_helloservice_sayhello'', ''hello_helloservice_watch'']"
    by code_simp
  from C10_failure_keeps_catalog [OF eval_discover_down] m show ?thesis
    by (simp add: eval_discover_down)
qed

text \<open>
  The round fails exactly when the discoverer is not connected, or when the offline path
  gives no method list (it is disabled, it fails, or it yields no method) and the
  reflection path fails.
\<close>

lemma DiscoverServices_fails_iff:
  "fst (DiscoverServices order env srv d) \<noteq> None \<longleftrightarrow>
     (d_reflectionClient d = None \<or>
      ((\<not> (d_descriptorEnabled d \<and> d_descriptorPath d \<noteq> []) \<or>
        discoverFromFileDescriptor env d \<in> range Inl \<or> discoverFromFileDescriptor env d = Inr []) \<and>
       fst (discoverFromReflection order srv (the (d_reflectionClient d))) \<in> range Inl))"
  by (auto simp: DiscoverServices_def Let_def
           split: option.splits sum.splits prod.splits if_splits)


text \<open>
  When the offline path yields a list that holds a method, the list is published as it
  is and no reflection request is sent.
\<close>

lemma offline_nonempty_no_reflection:
  "d_reflectionClient d \<noteq> None \<Longrightarrow> d_descriptorEnabled d \<Longrightarrow> d_descriptorPath d \<noteq> [] \<Longrightarrow>
   discoverFromFileDescriptor env d = Inr methods \<Longrightarrow> methods \<noteq> [] \<Longrightarrow>
   DiscoverServices order env srv d = (None, d\<lparr>d_tools := toolsOf methods\<rparr>, [])"
  by (auto simp: DiscoverServices_def)

text \<open>
  C2, on a descriptor set that loads and registers and declares no service: the offline
  path succeeds with an empty method list, and the round then queries the reflection
  service (\<open>ListServices\<close> and the file of \<open>hello.HelloService\<close>) and publishes the
  reflection catalog instead of the empty offline one.
\<close>

theorem C2_empty_offline_list_queries_reflection:
  "d_descriptorEnabled offlineDiscoverer \<and>
   d_descriptorPath offlineDiscoverer = ''services.binpb'' \<and>
   discoverFromFileDescriptor (descriptorFilesOf [typesOnlyFile]) offlineDiscoverer = Inr [] \<and>
   fst (DiscoverServices id (descriptorFilesOf [typesOnlyFile]) helloServer offlineDiscoverer)
     = None \<and>
   snd (snd (DiscoverServices id (descriptorFilesOf [typesOnlyFile]) helloServer
               offlineDiscoverer))
     = [ReqListServices, ReqFileContainingSymbol ''hello.HelloService''] \<and>
   GetMethods (fst (snd (DiscoverServices id (descriptorFilesOf [typesOnlyFile]) helloServer
                           offlineDiscoverer)))
     = [helloMethod]"
  by code_simp

text \<open>
  The reflection path filters by service name. After a round that succeeds and has
  queried the reflection service, every method of the catalog is named by its service's
  name, a dot and its own name, and no reserved prefix begins the name of its service.
\<close>

lemma reflection_path_filters_service_names:
  "DiscoverServices order env srv d = (None, d', q) \<Longrightarrow> q \<noteq> [] \<Longrightarrow>
   \<forall>m \<in> set (GetMethods d').
     FullName m = ServiceName m @ ''.'' @ Name m \<and>
     (\<forall>prefix \<in> set internalPrefixes. \<not> HasPrefix (ServiceName m) prefix)"
proof
  fix m assume a: "DiscoverServices order env srv d = (None, d', q)" "q \<noteq> []"
    and m: "m \<in> set (GetMethods d')"
  from m obtain k where km: "(k, m) \<in> set (d_tools d')" by (auto simp: GetMethods_def)
  from DiscoverServices_published[OF a(1)] a(2)
  obtain r ms r' where
    ms: "DiscoverMethods order srv r = (Inr ms, r', q)" "d_tools d' = toolsOf ms"
    by blast
  with km have "m \<in> set ms" by (auto dest: toolsOf_mem)
  from DiscoverMethods_props[OF ms(1) this]
  show "FullName m = ServiceName m @ ''.'' @ Name m \<and>
     (\<forall>prefix \<in> set internalPrefixes. \<not> HasPrefix (ServiceName m) prefix)"
    by (simp add: isInternal_def list_ex_iff)
qed

text \<open>
  On a backend that lists the reflection service, the health service and
  \<open>hello.HelloService\<close>, the reflection path publishes the methods of
  \<open>hello.HelloService\<close> only.
\<close>

lemma eval_reflection_path_filters:
  "fst (DiscoverServices id (descriptorFilesOf []) helloServer reflectionDiscoverer) = None \<and>
   map FullName (GetMethods (fst (snd (DiscoverServices id (descriptorFilesOf []) helloServer
                                         reflectionDiscoverer))))
     = [''hello.HelloService.SayHello'']"
  by code_simp

text \<open>
  The filter tests the names of services: on the reflection path a service named
  \<open>grpc.health\<close> (package \<open>grpc\<close>) does not begin with \<open>grpc.health.\<close> and is
  kept, and the full name of its method, \<open>grpc.health.Check\<close>, begins with that
  prefix.
\<close>

lemma eval_reflection_service_named_as_prefix:
  "fst (DiscoverServices id (descriptorFilesOf []) lowerHealthServer reflectionDiscoverer)
     = None \<and>
   map FullName (GetMethods (fst (snd (DiscoverServices id (descriptorFilesOf [])
                    lowerHealthServer reflectionDiscoverer))))
     = [''grpc.health.Check''] \<and>
   HasPrefix ''grpc.health.Check'' ''grpc.health.''"
  by code_simp

text \<open>
  C3, on the offline path. With a descriptor set that holds \<open>hello.HelloService\<close> and
  the health service \<open>grpc.health.v1.Health\<close>, the round succeeds without a
  reflection request and publishes \<open>grpc.health.v1.Health.Check\<close>, whose full name
  begins with the reserved prefix \<open>grpc.health.\<close>: the loader takes every service of
  every registered file and applies no filter. The same backend discovered through
  reflection publishes \<open>hello.HelloService.SayHello\<close> only.
\<close>

theorem C3_offline_path_publishes_internal_service:
  "d_descriptorEnabled offlineDiscoverer \<and>
   fst (DiscoverServices id (descriptorFilesOf [helloFile, healthFile]) helloServer
          offlineDiscoverer)
     = None \<and>
   snd (snd (DiscoverServices id (descriptorFilesOf [helloFile, healthFile]) helloServer
               offlineDiscoverer))
     = [] \<and>
   map FullName (GetMethods (fst (snd (DiscoverServices id
                    (descriptorFilesOf [helloFile, healthFile]) helloServer offlineDiscoverer))))
     = [''hello.HelloService.SayHello'', ''grpc.health.v1.Health.Check''] \<and>
   map ToolName (GetMethods (fst (snd (DiscoverServices id
                    (descriptorFilesOf [helloFile, healthFile]) helloServer offlineDiscoverer))))
     = [''hello_helloservice_sayhello'', ''grpc_health_v1_health_check''] \<and>
   HasPrefix ''grpc.health.v1.Health.Check'' ''grpc.health.'' \<and>
   list_ex (HasPrefix ''grpc.health.v1.Health.Check'') internalPrefixes \<and>
   map FullName (GetMethods (fst (snd (DiscoverServices id (descriptorFilesOf []) helloServer
                                         reflectionDiscoverer))))
     = [''hello.HelloService.SayHello'']"
  by code_simp

section \<open>Connection manager: the health probe\<close>

text \<open>The probe fails on an absent channel and on a channel that failed or is shut down.\<close>

lemma healthCheckLocked_fails:
  "healthCheckLocked ctx None = Some NoConnectionAvailable"
  "cc_state conn = TransientFailure \<or> cc_state conn = Shutdown \<Longrightarrow>
   healthCheckLocked ctx (Some conn) = Some UnhealthyState"
  by (auto simp: healthCheckLocked_def)

text \<open>
  The probe succeeds exactly on a channel that is ready, or that is idle or connecting
  and whose first change of state, within the window, is to \<open>Ready\<close>.
\<close>

lemma healthCheckLocked_ok_iff:
  "healthCheckLocked ctx cm_conn = None \<longleftrightarrow>
     (\<exists>conn. cm_conn = Some conn \<and>
        (cc_state conn = Ready \<or>
         ((cc_state conn = Idle \<or> cc_state conn = Connecting) \<and>
          (\<exists>conn'. firstChange (WithTimeout ctx 5000) (cc_state conn) (cc_changes conn) = Some conn'
                   \<and> cc_state conn' = Ready))))"
proof (cases cm_conn)
  case None
  then show ?thesis by (simp add: healthCheckLocked_def)
next
  case (Some conn)
  then show ?thesis
    by (cases "cc_state conn")
       (auto simp: healthCheckLocked_def WaitForStateChange_def Let_def
             split: option.splits if_splits)
qed

lemma firstChange_Ready_within:
  "firstChange window src changes = Some conn' \<Longrightarrow> cc_state conn' = Ready \<Longrightarrow>
   list_ex (\<lambda>(t, s). t < window \<and> s = Ready) changes"
  by (induction changes) (auto split: if_splits)

text \<open>A probe that succeeds found the channel ready or becoming ready within five seconds.\<close>

lemma healthCheckLocked_ok_ready:
  "healthCheckLocked ctx (Some conn) = None \<Longrightarrow>
   cc_state conn = Ready \<or> becomesReadyWithin 5000 conn"
proof -
  assume "healthCheckLocked ctx (Some conn) = None"
  then have "cc_state conn = Ready \<or>
     (\<exists>conn'. firstChange (WithTimeout ctx 5000) (cc_state conn) (cc_changes conn) = Some conn'
              \<and> cc_state conn' = Ready)"
    by (auto simp: healthCheckLocked_ok_iff)
  then show ?thesis
  proof
    assume "cc_state conn = Ready"
    then show ?thesis by simp
  next
    assume "\<exists>conn'. firstChange (WithTimeout ctx 5000) (cc_state conn) (cc_changes conn) = Some conn'
              \<and> cc_state conn' = Ready"
    then obtain conn' where
      "firstChange (WithTimeout ctx 5000) (cc_state conn) (cc_changes conn) = Some conn'"
      "cc_state conn' = Ready" by blast
    from firstChange_Ready_within[OF this]
    have "list_ex (\<lambda>(t, s). t < WithTimeout ctx 5000 \<and> s = Ready) (cc_changes conn)" .
    moreover have "WithTimeout ctx 5000 \<le> 5000"
      by (simp add: WithTimeout_def split: option.splits)
    ultimately show ?thesis
      by (fastforce simp: becomesReadyWithin_def list_ex_iff)
  qed
qed

text \<open>
  C9, on a channel that is idle, starts connecting after 100 ms and is ready after
  200 ms: the channel becomes ready within the five-second window, and the probe fails.
  It returns at the first change of state, finds \<open>Connecting\<close> and reports that the
  connection failed to become ready. On a channel that is connecting and ready after
  150 ms the probe succeeds.
\<close>

theorem C9_probe_fails_on_two_step_transition:
  "cc_state twoStepConn = Idle \<and>
   becomesReadyWithin 5000 twoStepConn \<and>
   healthCheckLocked None (Some twoStepConn) = Some FailedToBecomeReady \<and>
   healthCheckLocked None (Some connectingConn) = None"
  by code_simp


section \<open>Schema projector: visited set, termination and required fields\<close>

subsection \<open>Every step hands back the visited set\<close>

lemma fieldType_restores:
  "restoring rec \<Longrightarrow> extractFieldTypeSchemaInternal rec ft v = Some (r, v') \<Longrightarrow> v' = v"
  unfolding restoring_def extractFieldTypeSchemaInternal_def
  by (auto split: Kind.splits option.splits sum.splits prod.splits)

lemma field_restores:
  "restoring rec \<Longrightarrow> extractFieldSchemaInternal rec field v = Some (r, v') \<Longrightarrow> v' = v"
  unfolding extractFieldSchemaInternal_def Let_def
  by (auto split: if_splits option.splits sum.splits prod.splits dest: fieldType_restores)

lemma fieldsLoop_restores:
  "restoring rec \<Longrightarrow> fieldsLoop rec fs props req v = Some (r, v') \<Longrightarrow> v' = v"
proof (induction fs arbitrary: props req)
  case Nil
  then show ?case by simp
next
  case (Cons f fs)
  from Cons.prems(2) obtain x v1 where
    s: "extractFieldSchemaInternal rec f v = Some (x, v1)"
    by (auto split: option.splits)
  from field_restores[OF Cons.prems(1) s] have "v1 = v" .
  with Cons.prems s Cons.IH show ?case
    by (auto split: sum.splits)
qed

lemma oneofFieldsLoop_restores:
  "restoring rec \<Longrightarrow> oneofFieldsLoop rec fs acc v = Some (r, v') \<Longrightarrow> v' = v"
proof (induction fs arbitrary: acc)
  case Nil
  then show ?case by simp
next
  case (Cons f fs)
  from Cons.prems(2) obtain x v1 where
    s: "extractFieldSchemaInternal rec f v = Some (x, v1)"
    by (auto split: option.splits)
  from field_restores[OF Cons.prems(1) s] have "v1 = v" .
  with Cons.prems s Cons.IH show ?case
    by (auto split: sum.splits)
qed

lemma oneofsLoop_restores:
  "restoring rec \<Longrightarrow> oneofsLoop rec os props v = Some (r, v') \<Longrightarrow> v' = v"
proof (induction os arbitrary: props)
  case Nil
  then show ?case by simp
next
  case (Cons o1 os)
  from Cons.prems(2) obtain x v1 where
    s: "oneofFieldsLoop rec (o_Fields o1) [] v = Some (x, v1)"
    by (auto simp: Let_def split: option.splits)
  from oneofFieldsLoop_restores[OF Cons.prems(1) s] have "v1 = v" .
  with Cons.prems s Cons.IH show ?case
    by (auto simp: Let_def)
qed

lemma messageBody_restores:
  "restoring rec \<Longrightarrow> messageBody rec msg v = Some (r, v') \<Longrightarrow> v' = v"
  unfolding messageBody_def Let_def
  by (auto split: option.splits prod.splits dest: fieldsLoop_restores oneofsLoop_restores)

lemma extractMessage_restores:
  "extractMessageSchemaInternal depth reg fullName v = Some (r, v') \<Longrightarrow> v' = v"
proof (induction depth arbitrary: fullName v r v')
  case 0
  then show ?case by simp
next
  case (Suc depth)
  have R: "restoring (\<lambda>n v. extractMessageSchemaInternal depth reg n v)"
    unfolding restoring_def using Suc.IH by blast
  show ?case
  proof (cases "fullName \<in> v")
    case True
    with Suc.prems show ?thesis by simp
  next
    case False
    with Suc.prems obtain s v2 where
      b: "messageBody (\<lambda>n v. extractMessageSchemaInternal depth reg n v) (Message reg fullName)
            (insert fullName v) = Some (s, v2)" and v': "v' = v2 - {fullName}"
      by (auto split: option.splits)
    from messageBody_restores[OF R b] have "v2 = insert fullName v" .
    with v' False show ?thesis by auto
  qed
qed

lemma extractMessage_noError:
  "extractMessageSchemaInternal depth reg fullName v \<noteq> Some (Inl e, v')"
  by (cases depth) (auto split: option.splits)

subsection \<open>The projection returns within a depth of the registry's size plus one\<close>

lemma fieldType_total:
  assumes "totalAt rec v"
  shows "extractFieldTypeSchemaInternal rec ft v \<noteq> None"
proof -
  from assms have "rec (ft_Message ft) v \<noteq> None" by (simp add: totalAt_def)
  then show ?thesis
    unfolding extractFieldTypeSchemaInternal_def
    by (auto split: Kind.splits option.splits sum.splits prod.splits)
qed

lemma field_total:
  assumes "totalAt rec v"
  shows "extractFieldSchemaInternal rec field v \<noteq> None"
proof -
  have "extractFieldTypeSchemaInternal rec (f_Type field) v \<noteq> None"
       "extractFieldTypeSchemaInternal rec (f_MapValue field) v \<noteq> None"
    using fieldType_total[OF assms] by blast+
  then show ?thesis
    unfolding extractFieldSchemaInternal_def Let_def
    by (auto split: option.splits sum.splits prod.splits)
qed

lemma fieldsLoop_total:
  "restoring rec \<Longrightarrow> totalAt rec v \<Longrightarrow> fieldsLoop rec fs props req v \<noteq> None"
proof (induction fs arbitrary: props req)
  case Nil
  then show ?case by simp
next
  case (Cons f fs)
  from field_total[OF Cons.prems(2), of f] obtain x v1 where
    s: "extractFieldSchemaInternal rec f v = Some (x, v1)" by auto
  from field_restores[OF Cons.prems(1) s] have "v1 = v" .
  with s Cons.IH[OF Cons.prems] show ?case by (auto split: sum.splits)
qed

lemma oneofFieldsLoop_total:
  "restoring rec \<Longrightarrow> totalAt rec v \<Longrightarrow> oneofFieldsLoop rec fs acc v \<noteq> None"
proof (induction fs arbitrary: acc)
  case Nil
  then show ?case by simp
next
  case (Cons f fs)
  from field_total[OF Cons.prems(2), of f] obtain x v1 where
    s: "extractFieldSchemaInternal rec f v = Some (x, v1)" by auto
  from field_restores[OF Cons.prems(1) s] have "v1 = v" .
  with s Cons.IH[OF Cons.prems] show ?case by (auto split: sum.splits)
qed

lemma oneofsLoop_total:
  "restoring rec \<Longrightarrow> totalAt rec v \<Longrightarrow> oneofsLoop rec os props v \<noteq> None"
proof (induction os arbitrary: props)
  case Nil
  then show ?case by simp
next
  case (Cons o1 os)
  from oneofFieldsLoop_total[OF Cons.prems, of "o_Fields o1" "[]"] obtain x v1 where
    s: "oneofFieldsLoop rec (o_Fields o1) [] v = Some (x, v1)" by auto
  from oneofFieldsLoop_restores[OF Cons.prems(1) s] have "v1 = v" .
  with s Cons.IH[OF Cons.prems] show ?case by (auto simp: Let_def)
qed

lemma messageBody_total:
  assumes "restoring rec" and "totalAt rec v"
  shows "messageBody rec msg v \<noteq> None"
proof -
  from fieldsLoop_total[OF assms, of "m_Fields msg" "[]" "[]"] obtain props req v1 where
    f: "fieldsLoop rec (m_Fields msg) [] [] v = Some ((props, req), v1)" by auto
  from fieldsLoop_restores[OF assms(1) f] have v1: "v1 = v" .
  from oneofsLoop_total[OF assms, of "m_Oneofs msg" props] obtain props' v2 where
    o: "oneofsLoop rec (m_Oneofs msg) props v = Some (props', v2)" by auto
  from f o v1 show ?thesis by (simp add: messageBody_def Let_def)
qed

lemma messageBody_placeholder:
  "messageBody rec placeholderMessage v \<noteq> None"
  by (simp add: messageBody_def placeholderMessage_def Let_def)

lemma unvisited_insert:
  "map_of reg n \<noteq> None \<Longrightarrow> n \<notin> v \<Longrightarrow> unvisited reg (insert n v) < unvisited reg v"
proof -
  assume a: "map_of reg n \<noteq> None" "n \<notin> v"
  then have "n \<in> fst ` set reg" by (auto simp: map_of_eq_None_iff)
  with a(2) have "fst ` set reg - insert n v \<subset> fst ` set reg - v" by auto
  then show ?thesis unfolding unvisited_def by (intro psubset_card_mono) auto
qed

lemma unvisited_le_length: "unvisited reg v \<le> length reg"
proof -
  have "card (fst ` set reg - v) \<le> card (fst ` set reg)" by (intro card_mono) auto
  also have "\<dots> \<le> card (set reg)" by (rule card_image_le) simp
  also have "\<dots> \<le> length reg" by (rule card_length)
  finally show ?thesis by (simp add: unvisited_def)
qed

lemma extractMessage_total:
  "unvisited reg v < depth \<Longrightarrow> extractMessageSchemaInternal depth reg fullName v \<noteq> None"
proof (induction depth arbitrary: fullName v)
  case 0
  then show ?case by simp
next
  case (Suc depth)
  let ?rec = "\<lambda>n v. extractMessageSchemaInternal depth reg n v"
  have R: "restoring ?rec"
    unfolding restoring_def using extractMessage_restores by blast
  show ?case
  proof (cases "fullName \<in> v")
    case True
    then show ?thesis by simp
  next
    case False
    have "messageBody ?rec (Message reg fullName) (insert fullName v) \<noteq> None"
    proof (cases "map_of reg fullName")
      case None
      then show ?thesis by (simp add: Message_def messageBody_placeholder)
    next
      case (Some msg)
      then have "unvisited reg (insert fullName v) < unvisited reg v"
        using False by (intro unvisited_insert) auto
      with Suc.prems have "unvisited reg (insert fullName v) < depth" by simp
      then have "totalAt ?rec (insert fullName v)"
        unfolding totalAt_def using Suc.IH by blast
      from messageBody_total[OF R this] show ?thesis .
    qed
    with False show ?thesis by (auto split: option.splits)
  qed
qed

lemma extractMessage_returns:
  assumes "unvisited reg v < depth"
  shows "\<exists>schema. extractMessageSchemaInternal depth reg fullName v = Some (Inr schema, v)"
proof -
  from extractMessage_total[OF assms, of fullName] obtain r v' where
    s: "extractMessageSchemaInternal depth reg fullName v = Some (r, v')" by auto
  from extractMessage_restores[OF s] have "v' = v" .
  moreover from s extractMessage_noError[of depth reg fullName v] obtain schema where "r = Inr schema"
    by (cases r) auto
  ultimately show ?thesis using s by simp
qed

lemma ExtractMessageSchema_returns:
  "\<exists>schema. ExtractMessageSchema reg fullName = Some (Inr schema)"
proof -
  have "unvisited reg {} < Suc (length reg)" using unvisited_le_length[of reg "{}"] by simp
  from extractMessage_returns[OF this, of fullName] show ?thesis
    by (auto simp: ExtractMessageSchema_def)
qed

subsection \<open>The required array\<close>

lemma fieldType_ok_iff:
  "noError rec \<Longrightarrow> extractFieldTypeSchemaInternal rec ft v = Some (x, v') \<Longrightarrow>
   (\<exists>s. x = Inr s) \<longleftrightarrow> ft_Kind ft \<noteq> GroupKind"
  unfolding noError_def extractFieldTypeSchemaInternal_def
  by (auto split: Kind.splits option.splits sum.splits prod.splits)

lemma field_ok_iff:
  "noError rec \<Longrightarrow> extractFieldSchemaInternal rec field v = Some (x, v') \<Longrightarrow>
   (\<exists>s. x = Inr s) \<longleftrightarrow> ft_Kind (projectedType field) \<noteq> GroupKind"
  unfolding extractFieldSchemaInternal_def Let_def projectedType_def
  by (auto split: if_splits option.splits sum.splits prod.splits dest: fieldType_ok_iff)

lemma fieldsLoop_required:
  "restoring rec \<Longrightarrow> noError rec \<Longrightarrow>
   fieldsLoop rec fs props req v = Some ((props', req'), v') \<Longrightarrow>
   req' = req @ map f_Name (filter listedRequired fs)"
proof (induction fs arbitrary: props req)
  case Nil
  then show ?case by simp
next
  case (Cons f fs)
  from Cons.prems(3) obtain x v1 where
    s: "extractFieldSchemaInternal rec f v = Some (x, v1)"
    by (auto split: option.splits)
  from field_restores[OF Cons.prems(1) s] have v1: "v1 = v" .
  note ok = field_ok_iff[OF Cons.prems(2) s]
  show ?case
  proof (cases x)
    case (Inl e)
    with ok have g: "ft_Kind (projectedType f) = GroupKind" by auto
    from Cons.prems(3) s Inl v1 have "fieldsLoop rec fs props req v = Some ((props', req'), v')"
      by simp
    from Cons.IH[OF Cons.prems(1,2) this] g show ?thesis by (simp add: listedRequired_def)
  next
    case (Inr fieldSchema)
    with ok have g: "ft_Kind (projectedType f) \<noteq> GroupKind" by auto
    from Cons.prems(3) s Inr v1 have
      "fieldsLoop rec fs (AList.update (f_Name f) (JObject fieldSchema) props)
         (if f_HasOptionalKeyword f \<or> f_HasPresence f then req else req @ [f_Name f]) v
       = Some ((props', req'), v')"
      by simp
    from Cons.IH[OF Cons.prems(1,2) this] g show ?thesis by (simp add: listedRequired_def)
  qed
qed

lemma messageBody_required:
  assumes "restoring rec" and "noError rec" and "messageBody rec msg v = Some (schema, v')"
  shows "requiredOf schema = map (\<lambda>field. JString (f_Name field)) (filter listedRequired (m_Fields msg))"
proof -
  from assms(3) obtain props req v1 props' v2 where
    f: "fieldsLoop rec (m_Fields msg) [] [] v = Some ((props, req), v1)" and
    s: "schema = (let schema1 = (if extractComments (m_loc msg) \<noteq> []
                     then AList.update ''description''
                            (JString (extractComments (m_loc msg)))
                             [(''type'', JString ''object''), (''properties'', JObject [])]
                     else [(''type'', JString ''object''), (''properties'', JObject [])]);
                     schema2 = AList.update ''properties'' (JObject props') schema1
                   in if req \<noteq> []
                            then AList.update ''required'' (JArray (map JString req)) schema2
                            else schema2)"
    unfolding messageBody_def Let_def
    by (auto split: option.splits prod.splits)
  from fieldsLoop_required[OF assms(1,2) f]
  have r: "req = map f_Name (filter listedRequired (m_Fields msg))" by simp
  have "requiredOf schema = map JString req"
    unfolding s requiredOf_def Let_def
    by (simp add: update_conv')
  with r show ?thesis by (simp add: comp_def)
qed

lemma extractMessage_required:
  assumes "fullName \<notin> v"
    and "extractMessageSchemaInternal depth reg fullName v = Some (Inr schema, v')"
  shows "requiredOf schema
           = map (\<lambda>field. JString (f_Name field))
               (filter listedRequired (m_Fields (Message reg fullName)))"
proof (cases depth)
  case 0
  with assms show ?thesis by simp
next
  case (Suc d)
  let ?rec = "\<lambda>n v. extractMessageSchemaInternal d reg n v"
  have R: "restoring ?rec"
    unfolding restoring_def using extractMessage_restores by blast
  have N: "noError ?rec"
    unfolding noError_def using extractMessage_noError by blast
  from assms Suc obtain v2 where
    "messageBody ?rec (Message reg fullName) (insert fullName v) = Some (schema, v2)"
    by (auto split: option.splits)
  from messageBody_required[OF R N this] show ?thesis .
qed

subsection \<open>A larger depth bound gives the same result\<close>

lemma fieldType_mono:
  "extends rec rec' \<Longrightarrow> extractFieldTypeSchemaInternal rec ft v = Some x \<Longrightarrow>
   extractFieldTypeSchemaInternal rec' ft v = Some x"
  unfolding extends_def extractFieldTypeSchemaInternal_def
  by (auto split: Kind.splits option.splits sum.splits prod.splits)

lemma field_mono:
  "extends rec rec' \<Longrightarrow> extractFieldSchemaInternal rec field v = Some x \<Longrightarrow>
   extractFieldSchemaInternal rec' field v = Some x"
  unfolding extractFieldSchemaInternal_def Let_def
  by (auto split: if_splits option.splits sum.splits prod.splits dest: fieldType_mono)

lemma fieldsLoop_mono:
  "extends rec rec' \<Longrightarrow> fieldsLoop rec fs props req v = Some x \<Longrightarrow>
   fieldsLoop rec' fs props req v = Some x"
proof (induction fs arbitrary: props req v)
  case Nil
  then show ?case by simp
next
  case (Cons f fs)
  from Cons.prems(2) obtain y where
    s: "extractFieldSchemaInternal rec f v = Some y" by (auto split: option.splits)
  from field_mono[OF Cons.prems(1) s] have s': "extractFieldSchemaInternal rec' f v = Some y" .
  from Cons.prems s s' Cons.IH[OF Cons.prems(1)] show ?case
    by (auto split: sum.splits prod.splits)
qed

lemma oneofFieldsLoop_mono:
  "extends rec rec' \<Longrightarrow> oneofFieldsLoop rec fs acc v = Some x \<Longrightarrow>
   oneofFieldsLoop rec' fs acc v = Some x"
proof (induction fs arbitrary: acc v)
  case Nil
  then show ?case by simp
next
  case (Cons f fs)
  from Cons.prems(2) obtain y where
    s: "extractFieldSchemaInternal rec f v = Some y" by (auto split: option.splits)
  from field_mono[OF Cons.prems(1) s] have s': "extractFieldSchemaInternal rec' f v = Some y" .
  from Cons.prems s s' Cons.IH[OF Cons.prems(1)] show ?case
    by (auto split: sum.splits prod.splits)
qed

lemma oneofsLoop_mono:
  "extends rec rec' \<Longrightarrow> oneofsLoop rec os props v = Some x \<Longrightarrow>
   oneofsLoop rec' os props v = Some x"
proof (induction os arbitrary: props v)
  case Nil
  then show ?case by simp
next
  case (Cons o1 os)
  from Cons.prems(2) obtain y where
    s: "oneofFieldsLoop rec (o_Fields o1) [] v = Some y" by (auto simp: Let_def split: option.splits)
  from oneofFieldsLoop_mono[OF Cons.prems(1) s]
  have s': "oneofFieldsLoop rec' (o_Fields o1) [] v = Some y" .
  from Cons.prems s s' Cons.IH[OF Cons.prems(1)] show ?case
    by (auto simp: Let_def split: prod.splits)
qed

lemma messageBody_mono:
  assumes "extends rec rec'" and "messageBody rec msg v = Some x"
  shows "messageBody rec' msg v = Some x"
proof -
  from assms(2) obtain y where
    f: "fieldsLoop rec (m_Fields msg) [] [] v = Some y"
    unfolding messageBody_def Let_def by (auto split: option.splits)
  obtain props req v1 where y: "y = ((props, req), v1)" by (metis surj_pair)
  from assms(2) f y obtain z where
    o: "oneofsLoop rec (m_Oneofs msg) props v1 = Some z"
    unfolding messageBody_def Let_def by (auto split: option.splits)
  from fieldsLoop_mono[OF assms(1) f] have f': "fieldsLoop rec' (m_Fields msg) [] [] v = Some y" .
  from oneofsLoop_mono[OF assms(1) o] have o': "oneofsLoop rec' (m_Oneofs msg) props v1 = Some z" .
  from assms(2) f f' o o' y show ?thesis
    unfolding messageBody_def Let_def by simp
qed

lemma extractMessage_Suc:
  "extractMessageSchemaInternal depth reg fullName v = Some x \<Longrightarrow>
   extractMessageSchemaInternal (Suc depth) reg fullName v = Some x"
proof (induction depth arbitrary: fullName v x)
  case 0
  then show ?case by simp
next
  case (Suc depth)
  let ?rec = "\<lambda>n v. extractMessageSchemaInternal depth reg n v"
  let ?rec' = "\<lambda>n v. extractMessageSchemaInternal (Suc depth) reg n v"
  have E: "extends ?rec ?rec'"
    unfolding extends_def using Suc.IH by blast
  show ?case
  proof (cases "fullName \<in> v")
    case True
    with Suc.prems show ?thesis by simp
  next
    case False
    with Suc.prems obtain y where
      b: "messageBody ?rec (Message reg fullName) (insert fullName v) = Some y"
      by (auto split: option.splits)
    from messageBody_mono[OF E b]
    have b': "messageBody ?rec' (Message reg fullName) (insert fullName v) = Some y" .
    have "extractMessageSchemaInternal (Suc (Suc depth)) reg fullName v
            = (case messageBody ?rec' (Message reg fullName) (insert fullName v) of
                 None \<Rightarrow> None
               | Some (schema, visited') \<Rightarrow> Some (Inr schema, visited' - {fullName}))"
      using False by (subst extractMessageSchemaInternal.simps(2)) simp
    also have "\<dots> = (case messageBody ?rec (Message reg fullName) (insert fullName v) of
                 None \<Rightarrow> None
               | Some (schema, visited') \<Rightarrow> Some (Inr schema, visited' - {fullName}))"
      by (simp only: b b')
    also have "\<dots> = extractMessageSchemaInternal (Suc depth) reg fullName v"
      using False by simp
    finally show ?thesis using Suc.prems by simp
  qed
qed

lemma extractMessage_depth_mono:
  "extractMessageSchemaInternal depth reg fullName v = Some x \<Longrightarrow> depth \<le> depth' \<Longrightarrow>
   extractMessageSchemaInternal depth' reg fullName v = Some x"
  by (induction depth' ) (auto simp: le_Suc_eq dest: extractMessage_Suc simp del: extractMessageSchemaInternal.simps)


lemma eval_batch:
  "extractMessageSchemaInternal 1 batchRegistry ''shop.Batch'' {}
     = Some (Inr [(''type'', JString ''object''),
                  (''properties'',
                   JObject [(''id'', JObject [(''type'', JString ''string'')]),
                            (''note'', JObject [(''type'', JString ''string'')]),
                            (''tags'', JObject [(''type'', JString ''array''),
                                               (''items'', JObject [(''type'', JString ''string'')])])]),
                  (''required'', JArray [JString ''id'', JString ''tags''])],
             {})"
  by code_simp

text \<open>
  C4 as stated fails on a repeated group field. In \<open>shop.Batch\<close> the field \<open>items\<close>
  has no optional keyword and no presence tracking and belongs to no one-of group, and
  it is not listed in \<open>required\<close>: its projection fails on the group kind, and the field
  is left out of \<open>properties\<close> and of \<open>required\<close>.
\<close>

theorem C4_counterexample:
  "ExtractMessageSchema batchRegistry ''shop.Batch''
     = Some (Inr [(''type'', JString ''object''),
                  (''properties'',
                   JObject [(''id'', JObject [(''type'', JString ''string'')]),
                            (''note'', JObject [(''type'', JString ''string'')]),
                            (''tags'', JObject [(''type'', JString ''array''),
                                               (''items'', JObject [(''type'', JString ''string'')])])]),
                  (''required'', JArray [JString ''id'', JString ''tags''])]) \<and>
   m_Fields (Message batchRegistry ''shop.Batch'') ! 3 = itemsField \<and>
   m_Oneofs (Message batchRegistry ''shop.Batch'') = [] \<and>
   f_Name itemsField = ''items'' \<and>
   \<not> f_HasOptionalKeyword itemsField \<and>
   \<not> f_HasPresence itemsField"
  by code_simp

text \<open>
  The keys of \<open>properties\<close>: the names of the fields whose projection succeeds and
  the names of the one-of groups.
\<close>

lemma fieldsLoop_keys:
  "noError rec \<Longrightarrow> fieldsLoop rec fs props req v = Some ((props', req'), v') \<Longrightarrow>
   fst ` set props' = fst ` set props \<union> f_Name ` {field \<in> set fs. projects field}"
proof (induction fs arbitrary: props req v)
  case Nil
  then show ?case by simp
next
  case (Cons f fs)
  from Cons.prems(2) obtain x v1 where
    s: "extractFieldSchemaInternal rec f v = Some (x, v1)"
    by (auto split: option.splits)
  note ok = field_ok_iff[OF Cons.prems(1) s]
  show ?case
  proof (cases x)
    case (Inl e)
    with ok have g: "\<not> projects f" by (auto simp: projects_def)
    from Cons.prems(2) s Inl have "fieldsLoop rec fs props req v1 = Some ((props', req'), v')"
      by simp
    from Cons.IH[OF Cons.prems(1) this] g show ?thesis by auto
  next
    case (Inr fieldSchema)
    with ok have g: "projects f" by (auto simp: projects_def)
    from Cons.prems(2) s Inr have
      "fieldsLoop rec fs (AList.update (f_Name f) (JObject fieldSchema) props)
         (if f_HasOptionalKeyword f \<or> f_HasPresence f then req else req @ [f_Name f]) v1
       = Some ((props', req'), v')"
      by simp
    from Cons.IH[OF Cons.prems(1) this] g show ?thesis by (auto simp: dom_update)
  qed
qed

lemma oneofsLoop_keys:
  "oneofsLoop rec os props v = Some (props', v') \<Longrightarrow>
   fst ` set props' = fst ` set props \<union> o_Name ` set os"
proof (induction os arbitrary: props v)
  case Nil
  then show ?case by simp
next
  case (Cons o1 os)
  from Cons.prems obtain x v1 where
    s: "oneofFieldsLoop rec (o_Fields o1) [] v = Some (x, v1)"
    by (auto simp: Let_def split: option.splits)
  with Cons.prems obtain p1 where
    "oneofsLoop rec os p1 v1 = Some (props', v')" "fst ` set p1 = {o_Name o1} \<union> fst ` set props"
    by (auto simp: Let_def dom_update)
  with Cons.IH[of p1 v1] show ?case by auto
qed

lemma messageBody_properties:
  assumes "noError rec" and "messageBody rec msg v = Some (schema, v')"
  shows "fst ` set (propertiesOf schema)
           = f_Name ` {field \<in> set (m_Fields msg). projects field} \<union> o_Name ` set (m_Oneofs msg)"
proof -
  from assms(2) obtain props req v1 props' v2 where
    f: "fieldsLoop rec (m_Fields msg) [] [] v = Some ((props, req), v1)" and
    o: "oneofsLoop rec (m_Oneofs msg) props v1 = Some (props', v2)" and
    s: "schema = (let schema1 = (if extractComments (m_loc msg) \<noteq> []
                     then AList.update ''description''
                            (JString (extractComments (m_loc msg)))
                             [(''type'', JString ''object''), (''properties'', JObject [])]
                     else [(''type'', JString ''object''), (''properties'', JObject [])]);
                     schema2 = AList.update ''properties'' (JObject props') schema1
                   in if req \<noteq> []
                            then AList.update ''required'' (JArray (map JString req)) schema2
                            else schema2)"
    unfolding messageBody_def Let_def
    by (auto split: option.splits prod.splits)
  have "propertiesOf schema = props'"
    unfolding s propertiesOf_def Let_def
    by (simp add: update_conv')
  with fieldsLoop_keys[OF assms(1) f] oneofsLoop_keys[OF o] show ?thesis by auto
qed

lemma extractMessage_properties:
  assumes "fullName \<notin> v"
    and "extractMessageSchemaInternal depth reg fullName v = Some (Inr schema, v')"
  shows "fst ` set (propertiesOf schema)
           = f_Name ` {field \<in> set (m_Fields (Message reg fullName)). projects field}
             \<union> o_Name ` set (m_Oneofs (Message reg fullName))"
proof (cases depth)
  case 0
  with assms show ?thesis by simp
next
  case (Suc d)
  let ?rec = "\<lambda>n v. extractMessageSchemaInternal d reg n v"
  have N: "noError ?rec"
    unfolding noError_def using extractMessage_noError by blast
  from assms Suc obtain v2 where
    "messageBody ?rec (Message reg fullName) (insert fullName v) = Some (schema, v2)"
    by (auto split: option.splits)
  from messageBody_properties[OF N this] show ?thesis .
qed

text \<open>
  C4, amended. For a projected message, the \<open>required\<close> array lists, in field order,
  the names of the fields that have neither the optional keyword nor presence tracking
  and whose projection succeeds (every kind but the group kind); it is absent when there
  is no such field. The keys of \<open>properties\<close> are the names of the fields whose
  projection succeeds and the names of the one-of groups. So, with distinct field names,
  a field is listed in \<open>required\<close> if and only if it is such a field, and with field
  and group names distinct, a field is a key of \<open>properties\<close> if and only if its
  projection succeeds: a field whose projection fails is left out of both. The projection
  of a field, when it returns, succeeds exactly when the projected type is not of the
  group kind.
\<close>

theorem C4_required_fields:
  assumes "fullName \<notin> visited"
    and "extractMessageSchemaInternal depth reg fullName visited = Some (Inr schema, visited')"
  shows "requiredOf schema
           = map (\<lambda>field. JString (f_Name field))
               (filter listedRequired (m_Fields (Message reg fullName))) \<and>
         fst ` set (propertiesOf schema)
           = f_Name ` {field \<in> set (m_Fields (Message reg fullName)). projects field}
             \<union> o_Name ` set (m_Oneofs (Message reg fullName)) \<and>
         (distinct (map f_Name (m_Fields (Message reg fullName))) \<longrightarrow>
            (\<forall>field \<in> set (m_Fields (Message reg fullName)).
               JString (f_Name field) \<in> set (requiredOf schema) \<longleftrightarrow> listedRequired field)) \<and>
         (distinct (map f_Name (m_Fields (Message reg fullName))
                    @ map o_Name (m_Oneofs (Message reg fullName))) \<longrightarrow>
            (\<forall>field \<in> set (m_Fields (Message reg fullName)).
               (f_Name field \<in> fst ` set (propertiesOf schema) \<longleftrightarrow> projects field) \<and>
               (\<not> projects field \<longrightarrow>
                  f_Name field \<notin> fst ` set (propertiesOf schema) \<and>
                  JString (f_Name field) \<notin> set (requiredOf schema)))) \<and>
         (extractFieldSchemaInternal (\<lambda>n v. extractMessageSchemaInternal depth' reg n v)
              field' v = Some (outcome, v') \<longrightarrow>
            ((\<exists>fieldSchema. outcome = Inr fieldSchema) \<longleftrightarrow> projects field'))"
proof (intro conjI impI ballI)
  let ?fs = "m_Fields (Message reg fullName)"
  let ?os = "m_Oneofs (Message reg fullName)"
  show r: "requiredOf schema = map (\<lambda>field. JString (f_Name field)) (filter listedRequired ?fs)"
    using extractMessage_required[OF assms] .
  show p: "fst ` set (propertiesOf schema)
             = f_Name ` {field \<in> set ?fs. projects field} \<union> o_Name ` set ?os"
    using extractMessage_properties[OF assms] .
  have req_iff: "JString (f_Name field) \<in> set (requiredOf schema) \<longleftrightarrow> listedRequired field"
    if d: "distinct (map f_Name ?fs)" and f: "field \<in> set ?fs" for field
  proof
    from d have inj: "inj_on f_Name (set ?fs)" by (simp add: distinct_map)
    assume "JString (f_Name field) \<in> set (requiredOf schema)"
    with r obtain g where g: "g \<in> set ?fs" "listedRequired g" "f_Name g = f_Name field"
      by auto
    with inj f have "g = field" by (auto dest: inj_onD)
    with g show "listedRequired field" by simp
  next
    assume "listedRequired field"
    with f r show "JString (f_Name field) \<in> set (requiredOf schema)" by auto
  qed
  have key_iff: "f_Name field \<in> fst ` set (propertiesOf schema) \<longleftrightarrow> projects field"
    if d: "distinct (map f_Name ?fs @ map o_Name ?os)" and f: "field \<in> set ?fs" for field
  proof
    from d have inj: "inj_on f_Name (set ?fs)" and
      dis: "f_Name ` set ?fs \<inter> o_Name ` set ?os = {}"
      by (simp_all add: distinct_map)
    assume "f_Name field \<in> fst ` set (propertiesOf schema)"
    with p f dis obtain g where g: "g \<in> set ?fs" "projects g" "f_Name g = f_Name field"
      by auto
    with inj f have "g = field" by (auto dest: inj_onD)
    with g show "projects field" by simp
  next
    assume "projects field"
    with f p show "f_Name field \<in> fst ` set (propertiesOf schema)" by auto
  qed
  {
    fix field assume d: "distinct (map f_Name ?fs)" and f: "field \<in> set ?fs"
    from req_iff[OF d f]
    show "JString (f_Name field) \<in> set (requiredOf schema) \<longleftrightarrow> listedRequired field" .
  }
  {
    fix field assume d: "distinct (map f_Name ?fs @ map o_Name ?os)" and f: "field \<in> set ?fs"
    from key_iff[OF d f]
    show "f_Name field \<in> fst ` set (propertiesOf schema) \<longleftrightarrow> projects field" .
    assume n: "\<not> projects field"
    with key_iff[OF d f] show "f_Name field \<notin> fst ` set (propertiesOf schema)" by simp
    from d have "distinct (map f_Name ?fs)" by simp
    from req_iff[OF this f] n
    show "JString (f_Name field) \<notin> set (requiredOf schema)"
      by (simp add: listedRequired_def projects_def)
  }
  {
    assume x: "extractFieldSchemaInternal (\<lambda>n v. extractMessageSchemaInternal depth' reg n v)
              field' v = Some (outcome, v')"
    have N: "noError (\<lambda>n v. extractMessageSchemaInternal depth' reg n v)"
      unfolding noError_def using extractMessage_noError by blast
    from field_ok_iff[OF N x]
    show "(\<exists>fieldSchema. outcome = Inr fieldSchema) \<longleftrightarrow> projects field'"
      by (simp add: projects_def)
  }
qed

text \<open>
  C4, amended, at \<open>shop.Batch\<close>: \<open>id\<close> and \<open>tags\<close> are required, the optional
  \<open>note\<close> is a property and is not required, and the group field \<open>items\<close> is
  neither a property nor required.
\<close>

theorem C4_required_fields_witness:
  "''shop.Batch'' \<notin> ({} :: string set) \<and>
   map f_Name (m_Fields (Message batchRegistry ''shop.Batch''))
     = [''id'', ''note'', ''tags'', ''items''] \<and>
   distinct (map f_Name (m_Fields (Message batchRegistry ''shop.Batch''))
             @ map o_Name (m_Oneofs (Message batchRegistry ''shop.Batch''))) \<and>
   map listedRequired (m_Fields (Message batchRegistry ''shop.Batch''))
     = [True, False, True, False] \<and>
   map projects (m_Fields (Message batchRegistry ''shop.Batch''))
     = [True, True, True, False] \<and>
   map_option (\<lambda>(r, v). (map_sum id requiredOf r, v))
     (extractMessageSchemaInternal 1 batchRegistry ''shop.Batch'' {})
     = Some (Inr [JString ''id'', JString ''tags''], {}) \<and>
   map_option (\<lambda>(r, v). map_sum id (\<lambda>schema. map fst (propertiesOf schema)) r)
     (extractMessageSchemaInternal 1 batchRegistry ''shop.Batch'' {})
     = Some (Inr [''id'', ''note'', ''tags'']) \<and>
   ''items'' \<notin> fst ` set (propertiesOf (projr (fst (the
       (extractMessageSchemaInternal 1 batchRegistry ''shop.Batch'' {}))))) \<and>
   JString ''items'' \<notin> set (requiredOf (projr (fst (the
       (extractMessageSchemaInternal 1 batchRegistry ''shop.Batch'' {}))))) \<and>
   extractFieldSchemaInternal (\<lambda>n v. extractMessageSchemaInternal 0 batchRegistry n v)
       itemsField {''shop.Batch''}
     = Some (Inl UnsupportedFieldKind, {''shop.Batch''})"
proof -
  let ?S = "[(''type'', JString ''object''),
                  (''properties'',
                   JObject [(''id'', JObject [(''type'', JString ''string'')]),
                            (''note'', JObject [(''type'', JString ''string'')]),
                            (''tags'', JObject [(''type'', JString ''array''),
                                               (''items'', JObject [(''type'', JString ''string'')])])]),
                  (''required'', JArray [JString ''id'', JString ''tags''])]"
  let ?fs = "m_Fields (Message batchRegistry ''shop.Batch'')"
  let ?os = "m_Oneofs (Message batchRegistry ''shop.Batch'')"
  have n: "map f_Name ?fs = [''id'', ''note'', ''tags'', ''items'']"
    by code_simp
  have d: "distinct (map f_Name ?fs @ map o_Name ?os)"
    by code_simp
  have l: "map listedRequired ?fs = [True, False, True, False]"
    by code_simp
  have pr: "map projects ?fs = [True, True, True, False]"
    by code_simp
  have f: "map (\<lambda>field. JString (f_Name field)) (filter listedRequired ?fs)
     = [JString ''id'', JString ''tags'']"
    by code_simp
  have i1: "itemsField \<in> set ?fs" by code_simp
  have i2: "\<not> projects itemsField" by code_simp
  have i3: "f_Name itemsField = ''items''" by code_simp
  have k: "map fst (propertiesOf ?S) = [''id'', ''note'', ''tags'']" by code_simp
  have e: "projr (fst (the (extractMessageSchemaInternal 1 batchRegistry ''shop.Batch'' {}))) = ?S"
    by (subst eval_batch) simp
  have ne: "''shop.Batch'' \<notin> ({} :: string set)" by simp
  note c = C4_required_fields [OF ne eval_batch]
  from c have c1: "requiredOf ?S = map (\<lambda>field. JString (f_Name field)) (filter listedRequired ?fs)"
    by (rule conjunct1)
  from c have c4: "distinct (map f_Name ?fs @ map o_Name ?os) \<longrightarrow>
            (\<forall>field \<in> set ?fs.
               (f_Name field \<in> fst ` set (propertiesOf ?S) \<longleftrightarrow> projects field) \<and>
               (\<not> projects field \<longrightarrow>
                  f_Name field \<notin> fst ` set (propertiesOf ?S) \<and>
                  JString (f_Name field) \<notin> set (requiredOf ?S)))"
    by (rule conjunct2 [THEN conjunct2, THEN conjunct2, THEN conjunct1])
  have r: "requiredOf ?S = [JString ''id'', JString ''tags'']"
    using c1 f by (simp only:)
  have a: "map_option (\<lambda>(r, v). (map_sum id requiredOf r, v))
     (extractMessageSchemaInternal 1 batchRegistry ''shop.Batch'' {})
     = Some (Inr [JString ''id'', JString ''tags''], {})"
    by (subst eval_batch) (simp add: r)
  have b: "map_option (\<lambda>(r, v). map_sum id (\<lambda>schema. map fst (propertiesOf schema)) r)
     (extractMessageSchemaInternal 1 batchRegistry ''shop.Batch'' {})
     = Some (Inr [''id'', ''note'', ''tags''])"
    by (subst eval_batch) (simp add: k)
  from c4 d i1 have "\<not> projects itemsField \<longrightarrow>
                  f_Name itemsField \<notin> fst ` set (propertiesOf ?S) \<and>
                  JString (f_Name itemsField) \<notin> set (requiredOf ?S)"
    by blast
  with i2 have x: "f_Name itemsField \<notin> fst ` set (propertiesOf ?S)"
    and y: "JString (f_Name itemsField) \<notin> set (requiredOf ?S)" by blast+
  have x': "''items'' \<notin> fst ` set (propertiesOf (projr (fst (the
       (extractMessageSchemaInternal 1 batchRegistry ''shop.Batch'' {})))))"
    unfolding e using x[unfolded i3] .
  have y': "JString ''items'' \<notin> set (requiredOf (projr (fst (the
       (extractMessageSchemaInternal 1 batchRegistry ''shop.Batch'' {})))))"
    unfolding e using y[unfolded i3] .
  have z: "extractFieldSchemaInternal (\<lambda>n v. extractMessageSchemaInternal 0 batchRegistry n v)
       itemsField {''shop.Batch''}
     = Some (Inl UnsupportedFieldKind, {''shop.Batch''})"
    by code_simp
  from ne n d l pr a b x' y' z show ?thesis by blast
qed

subsection \<open>Cyclic type graphs\<close>

lemma extractMessage_ref:
  "fullName \<in> visited \<Longrightarrow>
   extractMessageSchemaInternal (Suc depth) reg fullName visited
     = Some (Inr (refSchema fullName), visited)"
  by simp

lemma fieldType_ref:
  "ft_Kind ft = MessageKind \<Longrightarrow> wellKnownSchema (ft_Message ft) = None \<Longrightarrow>
   ft_Message ft \<in> visited \<Longrightarrow>
   extractFieldTypeSchemaInternal (\<lambda>n v. extractMessageSchemaInternal (Suc depth) reg n v)
       ft visited
     = Some (Inr (refSchema (ft_Message ft)), visited)"
  by (simp add: extractFieldTypeSchemaInternal_def)

lemma extractMessage_entry_exit:
  assumes "fullName \<notin> visited"
  shows "\<exists>schema.
           messageBody (\<lambda>n v. extractMessageSchemaInternal (length reg) reg n v)
               (Message reg fullName) (insert fullName visited)
             = Some (schema, insert fullName visited) \<and>
           extractMessageSchemaInternal (Suc (length reg)) reg fullName visited
             = Some (Inr schema, visited)"
proof -
  have "unvisited reg visited < Suc (length reg)"
    using unvisited_le_length[of reg visited] by simp
  from extractMessage_returns[OF this, of fullName] obtain schema where
    s: "extractMessageSchemaInternal (Suc (length reg)) reg fullName visited
          = Some (Inr schema, visited)"
    by blast
  with assms obtain v2 where
    b: "messageBody (\<lambda>n v. extractMessageSchemaInternal (length reg) reg n v)
          (Message reg fullName) (insert fullName visited) = Some (schema, v2)"
    by (auto split: option.splits)
  have "restoring (\<lambda>n v. extractMessageSchemaInternal (length reg) reg n v)"
    unfolding restoring_def using extractMessage_restores by blast
  from messageBody_restores[OF this b] have "v2 = insert fullName visited" .
  with b s show ?thesis by blast
qed

lemma eval_node:
  "ExtractMessageSchema nodeRegistry ''Node''
     = Some (Inr [(''type'', JString ''object''),
                  (''properties'',
                   JObject [(''v'', JObject [(''type'', JString ''string'')]),
                            (''next'', JObject [(''$ref'', JString ''#/definitions/Node'')])]),
                  (''required'', JArray [JString ''v''])])"
  by code_simp

lemma eval_ring:
  "ExtractMessageSchema ringRegistry ''A''
     = Some (Inr [(''type'', JString ''object''),
                  (''properties'',
                   JObject [(''b'',
                     JObject [(''type'', JString ''object''),
                              (''properties'',
                               JObject [(''a'', JObject [(''$ref'', JString ''#/definitions/A'')])])])])])"
  by code_simp

text \<open>
  C5. For every registry, message and visited set the projection returns, within a
  nesting depth of the number of registered messages plus one, a schema and the visited
  set it was given; so does \<open>ExtractMessageSchema\<close>. Whatever depth bound lets the
  projection return, it gives back the visited set unchanged, and every larger bound gives
  the same result. A message that is in the visited set projects to the reference to its
  name, at any positive depth bound (no nested call is made), and so does a field whose
  message type is in the visited set (a well-known type met as the type of a field has
  its canonical shape and is not entered). A message that is not in the visited set has its body projected
  with its name added, the body leaves the set as it found it, and the name is removed on
  return.
\<close>

theorem C5_projection_terminates:
  "(\<exists>schema. extractMessageSchemaInternal (Suc (length reg)) reg fullName visited
               = Some (Inr schema, visited)) \<and>
   (\<exists>schema. ExtractMessageSchema reg fullName = Some (Inr schema)) \<and>
   (extractMessageSchemaInternal depth reg fullName visited = Some (r, visited') \<longrightarrow>
      visited' = visited \<and>
      (\<forall>depth' \<ge> depth.
         extractMessageSchemaInternal depth' reg fullName visited = Some (r, visited'))) \<and>
   (fullName \<in> visited \<longrightarrow>
      extractMessageSchemaInternal (Suc depth) reg fullName visited
        = Some (Inr (refSchema fullName), visited)) \<and>
   (ft_Kind ft = MessageKind \<and> wellKnownSchema (ft_Message ft) = None \<and>
    ft_Message ft \<in> visited \<longrightarrow>
      extractFieldTypeSchemaInternal (\<lambda>n v. extractMessageSchemaInternal (Suc depth) reg n v)
          ft visited
        = Some (Inr (refSchema (ft_Message ft)), visited)) \<and>
   (fullName \<notin> visited \<longrightarrow>
      (\<exists>schema.
         messageBody (\<lambda>n v. extractMessageSchemaInternal (length reg) reg n v)
             (Message reg fullName) (insert fullName visited)
           = Some (schema, insert fullName visited) \<and>
         extractMessageSchemaInternal (Suc (length reg)) reg fullName visited
           = Some (Inr schema, visited)))"
proof (intro conjI impI allI)
  have "unvisited reg visited < Suc (length reg)"
    using unvisited_le_length[of reg visited] by simp
  from extractMessage_returns[OF this]
  show "\<exists>schema. extractMessageSchemaInternal (Suc (length reg)) reg fullName visited
               = Some (Inr schema, visited)" .
  show "\<exists>schema. ExtractMessageSchema reg fullName = Some (Inr schema)"
    by (rule ExtractMessageSchema_returns)
next
  assume "extractMessageSchemaInternal depth reg fullName visited = Some (r, visited')"
  then show "visited' = visited" by (rule extractMessage_restores)
next
  fix depth'
  assume "extractMessageSchemaInternal depth reg fullName visited = Some (r, visited')"
    and "depth \<le> depth'"
  then show "extractMessageSchemaInternal depth' reg fullName visited = Some (r, visited')"
    by (rule extractMessage_depth_mono)
next
  assume "fullName \<in> visited"
  then show "extractMessageSchemaInternal (Suc depth) reg fullName visited
        = Some (Inr (refSchema fullName), visited)"
    by (rule extractMessage_ref)
next
  assume "ft_Kind ft = MessageKind \<and> wellKnownSchema (ft_Message ft) = None \<and>
    ft_Message ft \<in> visited"
  then have "ft_Kind ft = MessageKind" "wellKnownSchema (ft_Message ft) = None"
    "ft_Message ft \<in> visited" by blast+
  then show "extractFieldTypeSchemaInternal
          (\<lambda>n v. extractMessageSchemaInternal (Suc depth) reg n v) ft visited
        = Some (Inr (refSchema (ft_Message ft)), visited)"
    by (rule fieldType_ref)
next
  assume "fullName \<notin> visited"
  then show "\<exists>schema.
         messageBody (\<lambda>n v. extractMessageSchemaInternal (length reg) reg n v)
             (Message reg fullName) (insert fullName visited)
           = Some (schema, insert fullName visited) \<and>
         extractMessageSchemaInternal (Suc (length reg)) reg fullName visited
           = Some (Inr schema, visited)"
    by (rule extractMessage_entry_exit)
qed


lemma eval_node_depth2:
  "extractMessageSchemaInternal 2 nodeRegistry ''Node'' {}
     = Some (Inr [(''type'', JString ''object''),
                  (''properties'',
                   JObject [(''v'', JObject [(''type'', JString ''string'')]),
                            (''next'', JObject [(''$ref'', JString ''#/definitions/Node'')])]),
                  (''required'', JArray [JString ''v''])],
             {})"
  by code_simp

text \<open>
  C5 at the self-referential \<open>Node\<close>: the projection returns with \<open>next\<close> as a
  reference to \<open>Node\<close>, at depth bound 2 and at every larger one, and leaves the
  visited set empty; inside \<open>Node\<close>, both the message \<open>Node\<close> and a field of type
  \<open>Node\<close> project to the reference; the body of \<open>Node\<close> runs with \<open>Node\<close> in the
  set.
\<close>

theorem C5_projection_terminates_witness:
  "ExtractMessageSchema nodeRegistry ''Node''
     = Some (Inr [(''type'', JString ''object''),
                  (''properties'',
                   JObject [(''v'', JObject [(''type'', JString ''string'')]),
                            (''next'', JObject [(''$ref'', JString ''#/definitions/Node'')])]),
                  (''required'', JArray [JString ''v''])]) \<and>
   extractMessageSchemaInternal 7 nodeRegistry ''Node'' {}
     = extractMessageSchemaInternal 2 nodeRegistry ''Node'' {} \<and>
   map_option snd (extractMessageSchemaInternal 2 nodeRegistry ''Node'' {}) = Some {} \<and>
   extractMessageSchemaInternal 1 nodeRegistry ''Node'' {''Node''}
     = Some (Inr [(''$ref'', JString ''#/definitions/Node'')], {''Node''}) \<and>
   extractFieldTypeSchemaInternal (\<lambda>n v. extractMessageSchemaInternal 1 nodeRegistry n v)
       (messageType ''Node'') {''Node''}
     = Some (Inr [(''$ref'', JString ''#/definitions/Node'')], {''Node''}) \<and>
   map_option snd
     (messageBody (\<lambda>n v. extractMessageSchemaInternal 1 nodeRegistry n v)
        (Message nodeRegistry ''Node'') {''Node''})
     = Some {''Node''}"
proof -
  let ?S = "[(''type'', JString ''object''),
             (''properties'',
              JObject [(''v'', JObject [(''type'', JString ''string'')]),
                       (''next'', JObject [(''$ref'', JString ''#/definitions/Node'')])]),
             (''required'', JArray [JString ''v''])]"
  note c0 = C5_projection_terminates [where reg = nodeRegistry and fullName = "''Node''"
      and visited = "{}" and depth = 2 and r = "Inr ?S" and visited' = "{}"
      and ft = "messageType ''Node''"]
  note c1 = C5_projection_terminates [where reg = nodeRegistry and fullName = "''Node''"
      and visited = "{''Node''}" and depth = 0 and r = "Inr ?S" and visited' = "{}"
      and ft = "messageType ''Node''"]
  have len: "length nodeRegistry = 1" by (simp add: nodeRegistry_def)
  have a: "ExtractMessageSchema nodeRegistry ''Node'' = Some (Inr ?S)" by (rule eval_node)
  have b: "extractMessageSchemaInternal 7 nodeRegistry ''Node'' {}
             = extractMessageSchemaInternal 2 nodeRegistry ''Node'' {}"
    using c0 eval_node_depth2 by simp
  have c: "map_option snd (extractMessageSchemaInternal 2 nodeRegistry ''Node'' {}) = Some {}"
    by (simp add: eval_node_depth2)
  have d: "extractMessageSchemaInternal 1 nodeRegistry ''Node'' {''Node''}
     = Some (Inr [(''$ref'', JString ''#/definitions/Node'')], {''Node''})"
    using c1 by (simp add: refSchema_def)
  have k: "ft_Kind (messageType ''Node'') = MessageKind"
          "ft_Message (messageType ''Node'') = ''Node''"
          "wellKnownSchema ''Node'' = None"
    by code_simp+
  have e: "extractFieldTypeSchemaInternal (\<lambda>n v. extractMessageSchemaInternal 1 nodeRegistry n v)
       (messageType ''Node'') {''Node''}
     = Some (Inr [(''$ref'', JString ''#/definitions/Node'')], {''Node''})"
    using c1 k by (simp add: refSchema_def)
  have f: "map_option snd
     (messageBody (\<lambda>n v. extractMessageSchemaInternal 1 nodeRegistry n v)
        (Message nodeRegistry ''Node'') {''Node''})
     = Some {''Node''}"
    using c0 len by auto
  from a b c d e f show ?thesis by blast
qed

end
